theory Spec2Isabelle
  imports Complex_Main "HOL-Library.Sublist"
begin

section \<open>Flappy Bird (flappybird.py): the game loop, collisions and scoring\<close>

text \<open>
  The development follows \<^verbatim>\<open>src/flappybird.py\<close> class by class: \<^verbatim>\<open>Player\<close>,
  \<^verbatim>\<open>Obstacle\<close>, \<^verbatim>\<open>Scoreboard\<close>, \<^verbatim>\<open>Game\<close>, \<^verbatim>\<open>Application\<close>.

  Numbers. Canvas coordinates and the velocity are Python floats. Every value the game
  computes is an integer or an integer plus one half, far below \<open>2 ^ 52\<close>, and such
  values are added exactly by IEEE doubles; the two products of constants round to exact
  values as well (\<^verbatim>\<open>5 * 0.1 == 0.5\<close> and \<^verbatim>\<open>-5 * 1.6 == -8.0\<close> in Python). The model
  therefore computes with exact numbers of type \<^typ>\<open>real\<close>.
\<close>

subsection \<open>Errors\<close>

datatype py_error = IndexError | ValueError

subsection \<open>The canvas\<close>

text \<open>
  \<^verbatim>\<open>canvas.coords(item)\<close> of a rectangle is a list of four floats, read in the source
  through the index constants \<^verbatim>\<open>_LEFT_X = 0\<close>, \<^verbatim>\<open>TOP_Y = 1\<close>, \<^verbatim>\<open>RIGHT_X = 2\<close>,
  \<^verbatim>\<open>BOTTOM_Y = 3\<close>; the fields of \<open>box\<close> are named after them.
\<close>

record box =
  LEFT_X :: real
  TOP_Y :: real
  RIGHT_X :: real
  BOTTOM_Y :: real

text \<open>
  A canvas item is an integer id with its coordinates. Each item of the game is referred
  to by exactly one object (the player or one obstacle), so the coordinates are kept with
  the owner, and of the canvas only the next free item id is kept. Tk numbers the items of
  a canvas from 1.
\<close>

record item =
  item_id :: nat
  item_coords :: box

type_synonym canvas = nat

definition Canvas :: canvas where
  "Canvas = 1"

text \<open>Tk stores the corners of a rectangle item with the smaller coordinate first.\<close>

definition create_rectangle :: "canvas \<Rightarrow> real \<Rightarrow> real \<Rightarrow> real \<Rightarrow> real \<Rightarrow> item \<times> canvas" where
  "create_rectangle c xa ya xb yb =
     (\<lparr>item_id = c,
       item_coords = \<lparr>LEFT_X = min xa xb, TOP_Y = min ya yb,
                      RIGHT_X = max xa xb, BOTTOM_Y = max ya yb\<rparr>\<rparr>,
      Suc c)"

definition canvas_move :: "item \<Rightarrow> real \<Rightarrow> real \<Rightarrow> item" where
  "canvas_move it dx dy =
     it\<lparr>item_coords :=
          \<lparr>LEFT_X = LEFT_X (item_coords it) + dx, TOP_Y = TOP_Y (item_coords it) + dy,
           RIGHT_X = RIGHT_X (item_coords it) + dx, BOTTOM_Y = BOTTOM_Y (item_coords it) + dy\<rparr>\<rparr>"

definition canvas_coords :: "item \<Rightarrow> box" where
  "canvas_coords it = item_coords it"

subsection \<open>Python lists\<close>

text \<open>\<^verbatim>\<open>list.remove(v)\<close> deletes the first element equal to \<open>v\<close> and raises ValueError
  when there is none.\<close>

definition list_remove :: "'a \<Rightarrow> 'a list \<Rightarrow> py_error + 'a list" where
  "list_remove v xs = (if v \<in> set xs then Inr (remove1 v xs) else Inl ValueError)"

subsection \<open>Player\<close>

definition BIRD_WIDTH :: real where [simp]: "BIRD_WIDTH = 40"
definition BIRD_HEIGHT :: real where [simp]: "BIRD_HEIGHT = 40"
definition ACCELERATION :: real where [simp]: "ACCELERATION = 5"
definition JUMP_TIME :: real where [simp]: "JUMP_TIME = 16 / 10"
definition FALL_TIME :: real where [simp]: "FALL_TIME = 1 / 10"

record player =
  player_rectangle :: item
  control_key :: string
  control_button :: int
  y_velocity :: real
  movement_stack :: "string list"

text \<open>A Tk event: \<open>keysym\<close> of a key press; \<open>num\<close> is the button number of a mouse click
  and \<^verbatim>\<open>'??'\<close> (here \<open>None\<close>) for every other event.\<close>

record event =
  keysym :: string
  num :: "int option"

definition Player :: "canvas \<Rightarrow> real \<Rightarrow> real \<Rightarrow> string \<Rightarrow> int \<Rightarrow> player \<times> canvas" where
  "Player c x y key button =
     (case create_rectangle c x y (x + BIRD_HEIGHT) (y + BIRD_WIDTH) of
        (rect, c') \<Rightarrow>
          (\<lparr>player_rectangle = rect, control_key = key, control_button = button,
            y_velocity = 0, movement_stack = []\<rparr>, c'))"

definition fall :: "player \<Rightarrow> player" where
  "fall p =
     (let v = y_velocity p + ACCELERATION * FALL_TIME
      in p\<lparr>y_velocity := v, player_rectangle := canvas_move (player_rectangle p) 0 v\<rparr>)"

definition flap :: "player \<Rightarrow> py_error + player" where
  "flap p =
     (let v = - ACCELERATION * JUMP_TIME;
          p' = p\<lparr>y_velocity := v, player_rectangle := canvas_move (player_rectangle p) 0 v\<rparr>
      in case list_remove ''True'' (movement_stack p') of
           Inl err \<Rightarrow> Inl err
         | Inr stack \<Rightarrow> Inr (p'\<lparr>movement_stack := stack\<rparr>))"

text \<open>The three tests of \<^verbatim>\<open>move\<close> are separate \<^verbatim>\<open>if\<close> statements, run one after
  the other on the stack as the previous one left it; \<^verbatim>\<open>pop()\<close> drops the last element.\<close>

definition move :: "player \<Rightarrow> py_error + player" where
  "move p =
     (let p1 = (if length (movement_stack p) = 0 then fall p else p)
      in case (if length (movement_stack p1) = 1 then flap p1 else Inr p1) of
           Inl err \<Rightarrow> Inl err
         | Inr p2 \<Rightarrow>
             Inr (if length (movement_stack p2) > 1
                  then p2\<lparr>movement_stack := butlast (movement_stack p2)\<rparr>
                  else p2))"

definition event_entered :: "player \<Rightarrow> event \<Rightarrow> player" where
  "event_entered p ev =
     (if keysym ev = control_key p \<or> num ev = Some (control_button p)
      then p\<lparr>movement_stack := movement_stack p @ [''True'']\<rparr>
      else p)"

definition get_coordinates :: "player \<Rightarrow> box" where
  "get_coordinates p = canvas_coords (player_rectangle p)"

text \<open>\<open>n\<close> calls of \<^verbatim>\<open>move\<close> in a row (\<open>n\<close> ticks of the player), stopping at the first
  exception; \<open>n\<close> deliveries of one event.\<close>

fun moves :: "nat \<Rightarrow> player \<Rightarrow> py_error + player" where
  "moves 0 p = Inr p"
| "moves (Suc n) p = (case move p of Inl err \<Rightarrow> Inl err | Inr p' \<Rightarrow> moves n p')"

fun events_entered :: "nat \<Rightarrow> event \<Rightarrow> player \<Rightarrow> player" where
  "events_entered 0 ev p = p"
| "events_entered (Suc n) ev p = event_entered (events_entered n ev p) ev"

subsection \<open>Obstacle\<close>

definition OBSTACLE_WIDTH :: real where [simp]: "OBSTACLE_WIDTH = 70"
definition OBSTACLE_GAP :: real where [simp]: "OBSTACLE_GAP = 150"
definition MOVEMENT_SPEED :: real where [simp]: "MOVEMENT_SPEED = - 2"
definition SCREEN_WIDTH :: real where [simp]: "SCREEN_WIDTH = 360"
definition SCREEN_HEIGHT :: real where [simp]: "SCREEN_HEIGHT = 640"

record obstacle =
  top_rectangle :: item
  bottom_rectangle :: item
  top_obstacle_position :: box
  bottom_obstacle_position :: box
  halfway :: bool
  off_screen :: bool

definition Obstacle :: "canvas \<Rightarrow> real \<Rightarrow> real \<Rightarrow> obstacle \<times> canvas" where
  "Obstacle c x y =
     (case create_rectangle c x (y - OBSTACLE_GAP) (x + OBSTACLE_WIDTH) (y - SCREEN_HEIGHT) of
        (top_rect, c1) \<Rightarrow>
          (case create_rectangle c1 x y (x + OBSTACLE_WIDTH) (y + SCREEN_HEIGHT) of
             (bottom_rect, c2) \<Rightarrow>
               (\<lparr>top_rectangle = top_rect, bottom_rectangle = bottom_rect,
                 top_obstacle_position = canvas_coords top_rect,
                 bottom_obstacle_position = canvas_coords bottom_rect,
                 halfway = False, off_screen = False\<rparr>, c2)))"

definition check_obstacle_positions :: "obstacle \<Rightarrow> obstacle" where
  "check_obstacle_positions ob =
     (let ob1 = (if RIGHT_X (bottom_obstacle_position ob) \<le> 0
                 then ob\<lparr>off_screen := True\<rparr> else ob)
      in if LEFT_X (bottom_obstacle_position ob1) = SCREEN_WIDTH / 2
         then ob1\<lparr>halfway := True\<rparr>
         else ob1\<lparr>halfway := False\<rparr>)"

definition move_obstacle :: "obstacle \<Rightarrow> obstacle" where
  "move_obstacle ob =
     (let top_rect = canvas_move (top_rectangle ob) MOVEMENT_SPEED 0;
          bottom_rect = canvas_move (bottom_rectangle ob) MOVEMENT_SPEED 0
      in check_obstacle_positions
           (ob\<lparr>top_rectangle := top_rect, bottom_rectangle := bottom_rect,
               top_obstacle_position := canvas_coords top_rect,
               bottom_obstacle_position := canvas_coords bottom_rect\<rparr>))"

subsection \<open>Scoreboard\<close>

definition POINT_WORTH :: int where [simp]: "POINT_WORTH = 1"

record scoreboard =
  score :: int
  label_text :: int

definition Scoreboard :: scoreboard where
  "Scoreboard = \<lparr>score = 0, label_text = 0\<rparr>"

definition increase_score :: "scoreboard \<Rightarrow> scoreboard" where
  "increase_score sb =
     (let s = score sb + POINT_WORTH in sb\<lparr>score := s, label_text := s\<rparr>)"

subsection \<open>Python's random module\<close>

text \<open>
  \<^verbatim>\<open>random.randrange(start, stop)\<close> returns an integer of \<open>[start, stop)\<close> and advances
  the generator. The generator is an endless supply of natural numbers, of which each call
  uses the first: every integer of the range can come out and no other. How the values are
  distributed is a property of the library and is not modelled. (The source calls it with
  the constants 200 and 600 only, so the ValueError of an empty range cannot occur.)
\<close>

type_synonym entropy = "nat \<Rightarrow> nat"

definition randrange :: "int \<Rightarrow> int \<Rightarrow> entropy \<Rightarrow> int \<times> entropy" where
  "randrange start stop e = (start + int (e 0) mod (stop - start), \<lambda>n. e (Suc n))"

subsection \<open>Python's str on integers\<close>

fun str_nat :: "nat \<Rightarrow> string" where
  "str_nat n =
     (if n < 10 then [''0123456789'' ! n]
      else str_nat (n div 10) @ [''0123456789'' ! (n mod 10)])"

declare str_nat.simps [simp del]

definition str :: "int \<Rightarrow> string" where
  "str i = (if i < 0 then ''-'' @ str_nat (nat (- i)) else str_nat (nat i))"

subsection \<open>Game\<close>

definition DISTANCE_BETWEEN_OBSTACLES :: real where [simp]: "DISTANCE_BETWEEN_OBSTACLES = 80"
definition MIN_RANGE_OF_PIPES :: int where [simp]: "MIN_RANGE_OF_PIPES = 200"
definition MAX_RANGE_OF_PIPES :: int where [simp]: "MAX_RANGE_OF_PIPES = 600"

record game =
  canvas :: canvas
  player :: player
  obstacles :: "obstacle list"
  scoreboard :: scoreboard
  game_score :: int

definition Game :: "canvas \<Rightarrow> game" where
  "Game c =
     (case Player c 40 300 ''space'' 1 of
        (p, c') \<Rightarrow>
          \<lparr>canvas = c', player = p, obstacles = [], scoreboard = Scoreboard, game_score = 0\<rparr>)"

definition game_event_entered :: "game \<Rightarrow> event \<Rightarrow> game" where
  "game_event_entered g ev = g\<lparr>player := event_entered (player g) ev\<rparr>"

text \<open>
  \<^verbatim>\<open>_manage_pipes\<close>. The first loop changes no list and is a \<open>map\<close>. The second loop
  appends to and removes from the list it iterates over. Python's list iterator keeps an
  index: it yields \<^verbatim>\<open>obstacles[i]\<close> while \<open>i\<close> is below the current length and then
  increments \<open>i\<close>, so appended obstacles are visited too, and after a removal the element
  that moved into position \<open>i\<close> is skipped. \<open>pipes_body\<close> is the body of that loop,
  \<open>pipes_loop\<close> the iteration.

  \<^verbatim>\<open>self._obstacles.remove(obstacle)\<close> deletes the first element equal to the obstacle;
  obstacles hold the ids of their own canvas items, which no other obstacle has.
  \<^verbatim>\<open>self._canvas.delete(obstacle)\<close> passes the object, not an item id: no item of the
  canvas matches and nothing is deleted.
\<close>

type_synonym stream = "obstacle list \<times> canvas \<times> entropy"

definition spawn :: "real \<Rightarrow> stream \<Rightarrow> stream" where
  "spawn x st =
     (case st of (obs, c, e) \<Rightarrow>
        (case randrange MIN_RANGE_OF_PIPES MAX_RANGE_OF_PIPES e of
           (y, e') \<Rightarrow>
             (case Obstacle c x (real_of_int y) of
                (new_obstacle, c') \<Rightarrow> (obs @ [new_obstacle], c', e'))))"

definition pipes_body :: "obstacle \<Rightarrow> stream \<Rightarrow> stream" where
  "pipes_body ob st =
     (case (if halfway ob then spawn (SCREEN_WIDTH + DISTANCE_BETWEEN_OBSTACLES) st else st) of
        (obs, c, e) \<Rightarrow> (if off_screen ob then remove1 ob obs else obs, c, e))"

function pipes_loop :: "nat \<Rightarrow> stream \<Rightarrow> stream" where
  "pipes_loop i st =
     (if i < length (fst st) then pipes_loop (Suc i) (pipes_body (fst st ! i) st) else st)"
  by pat_completeness auto

text \<open>The measure that decreases in every pass of the loop: the elements still to be
  visited, plus those among them that will append a new obstacle.\<close>

definition loop_measure :: "nat \<Rightarrow> obstacle list \<Rightarrow> nat" where
  "loop_measure i obs = (length obs - i) + length (filter halfway (drop i obs))"

definition manage_pipes :: "game \<Rightarrow> entropy \<Rightarrow> game \<times> entropy" where
  "manage_pipes g e =
     (let st = (map move_obstacle (obstacles g), canvas g, e);
          st1 = (if length (fst st) = 0 then spawn SCREEN_WIDTH st else st)
      in case pipes_loop 0 st1 of
           (obs, c, e') \<Rightarrow> (g\<lparr>obstacles := obs, canvas := c\<rparr>, e'))"

text \<open>
  \<^verbatim>\<open>manage_collisions\<close>. Whether the player's rectangle is among
  \<^verbatim>\<open>canvas.find_overlapping(*area)\<close> is decided by Tk; the test is a parameter.
  The result is Python's \<^verbatim>\<open>True\<close>, \<^verbatim>\<open>False\<close>, or \<^verbatim>\<open>None\<close> when the function
  ends without a \<^verbatim>\<open>return\<close>. The IndexError of \<^verbatim>\<open>self._obstacles[0]\<close> is caught
  inside the function.
\<close>

type_synonym overlap_test = "box \<Rightarrow> item \<Rightarrow> bool"

definition manage_collisions :: "overlap_test \<Rightarrow> game \<Rightarrow> bool option" where
  "manage_collisions find_overlapping g =
     (case obstacles g of
        [] \<Rightarrow> Some False
      | ob # _ \<Rightarrow>
          if find_overlapping (bottom_obstacle_position ob) (player_rectangle (player g)) \<or>
             find_overlapping (top_obstacle_position ob) (player_rectangle (player g))
          then Some True
          else if BOTTOM_Y (get_coordinates (player g)) \<ge> SCREEN_HEIGHT \<or>
                  TOP_Y (get_coordinates (player g)) \<le> 0
          then Some True
          else None)"

definition manage_score :: "game \<Rightarrow> py_error + game" where
  "manage_score g =
     (case obstacles g of
        [] \<Rightarrow> Inl IndexError
      | ob # _ \<Rightarrow>
          Inr (if RIGHT_X (get_coordinates (player g)) = RIGHT_X (bottom_obstacle_position ob)
               then (let sb = increase_score (scoreboard g)
                     in g\<lparr>scoreboard := sb, game_score := score sb\<rparr>)
               else g))"

subsection \<open>Application\<close>

text \<open>
  Of the widgets, the model keeps which of the menu frame and the game canvas is packed and
  the text of the score label. The canvas is shared with the game object, which holds it.
\<close>

record application =
  menu_frame_packed :: bool
  game_canvas_packed :: bool
  score_label :: string
  game_object :: game

definition Application :: application where
  "Application =
     \<lparr>menu_frame_packed = True, game_canvas_packed = False, score_label = [],
      game_object = Game Canvas\<rparr>"

definition restart :: "application \<Rightarrow> application" where
  "restart app =
     app\<lparr>game_canvas_packed := False, menu_frame_packed := True,
         score_label := ''Score: '' @ str (game_score (game_object app)),
         game_object := Game Canvas\<rparr>"

definition check_restart :: "overlap_test \<Rightarrow> application \<Rightarrow> application" where
  "check_restart find_overlapping app =
     (if manage_collisions find_overlapping (game_object app) = Some True
      then restart app else app)"

text \<open>
  One cycle of \<^verbatim>\<open>run_game\<close> of the application's current game object (the re-scheduling
  through \<^verbatim>\<open>window.after\<close> is the caller's iteration). The value of the first call of
  \<^verbatim>\<open>manage_collisions\<close> is discarded by the source, and the call changes nothing.
\<close>

definition run_game :: "overlap_test \<Rightarrow> application \<Rightarrow> entropy \<Rightarrow> py_error + application \<times> entropy" where
  "run_game find_overlapping app e =
     (case move (player (game_object app)) of
        Inl err \<Rightarrow> Inl err
      | Inr p \<Rightarrow>
          (case manage_pipes ((game_object app)\<lparr>player := p\<rparr>) e of
             (g1, e1) \<Rightarrow>
               (case manage_score g1 of
                  Inl err \<Rightarrow> Inl err
                | Inr g2 \<Rightarrow> Inr (check_restart find_overlapping (app\<lparr>game_object := g2\<rparr>), e1))))"


text \<open>\<open>n\<close> stream ticks in a row.\<close>

fun pipes_ticks :: "nat \<Rightarrow> game \<Rightarrow> entropy \<Rightarrow> game \<times> entropy" where
  "pipes_ticks 0 g e = (g, e)"
| "pipes_ticks (Suc n) g e = (case pipes_ticks n g e of (g', e') \<Rightarrow> manage_pipes g' e')"

subsection \<open>The objects of the scenarios\<close>

text \<open>The player of a new game, as \<^verbatim>\<open>Game.__init__\<close> creates it on a new canvas, and a
  press of the space bar.\<close>

definition start_player :: player where
  "start_player = player (Game Canvas)"

definition space_key :: event where
  "space_key = \<lparr>keysym = ''space'', num = None\<rparr>"

text \<open>
  The obstacle pair created at \<open>(x, y)\<close> with the item ids \<open>c\<close> and \<open>c + 1\<close>, after
  \<open>n\<close> calls of \<^verbatim>\<open>move_obstacle\<close>: a pair \<open>n\<close> ticks after it was spawned.
\<close>

definition pair :: "canvas \<Rightarrow> real \<Rightarrow> real \<Rightarrow> nat \<Rightarrow> obstacle" where
  "pair c x y n = (move_obstacle ^^ n) (fst (Obstacle c x y))"

text \<open>
  Two rectangles overlap when their projections meet on both axes. Used to state that the
  two barriers of a pair stay apart; it is not the test of \<^verbatim>\<open>find_overlapping\<close>.
\<close>

definition boxes_overlap :: "box \<Rightarrow> box \<Rightarrow> bool" where
  "boxes_overlap a b \<longleftrightarrow>
     LEFT_X a \<le> RIGHT_X b \<and> LEFT_X b \<le> RIGHT_X a \<and>
     TOP_Y a \<le> BOTTOM_Y b \<and> TOP_Y b \<le> BOTTOM_Y a"

text \<open>The gap centre the next spawn draws, and the generator after that draw.\<close>

definition gap_centre :: "entropy \<Rightarrow> real" where
  "gap_centre e = real_of_int (fst (randrange MIN_RANGE_OF_PIPES MAX_RANGE_OF_PIPES e))"

definition rest :: "entropy \<Rightarrow> entropy" where
  "rest e = snd (randrange MIN_RANGE_OF_PIPES MAX_RANGE_OF_PIPES e)"

text \<open>
  The obstacle lists of a running game, after \<^verbatim>\<open>_manage_pipes\<close>: one pair right of the
  midpoint, spawned at 360 (the first pair) or at 440 (every later one), or two pairs, the
  older at or left of the midpoint and the younger 260 pixels behind it.
\<close>

definition stream_inv :: "obstacle list \<Rightarrow> bool" where
  "stream_inv obs \<longleftrightarrow>
     (\<exists>c y n. obs = [pair c 360 y n] \<and> n < 90) \<or>
     (\<exists>c y n. obs = [pair c 440 y n] \<and> n < 130) \<or>
     (\<exists>c y n c' y'. obs = [pair c 360 y (90 + n), pair c' 440 y' n] \<and> n < 125) \<or>
     (\<exists>c y n c' y'. obs = [pair c 440 y (130 + n), pair c' 440 y' n] \<and> n < 125)"

text \<open>A generator whose every draw gives the smallest value of the range.\<close>

definition no_entropy :: entropy where
  "no_entropy = (\<lambda>_. 0)"

text \<open>The geometric overlap test, for the scenarios that need a concrete one.\<close>

definition rectangles_test :: overlap_test where
  "rectangles_test area it = boxes_overlap area (item_coords it)"

text \<open>
  What holds of the application between the cycles of a session: the obstacle list is
  empty (a new game) or as \<^verbatim>\<open>_manage_pipes\<close> leaves it, and the movement stack holds
  nothing but the entries \<^verbatim>\<open>event_entered\<close> appends.
\<close>

definition session_inv :: "application \<Rightarrow> bool" where
  "session_inv app \<longleftrightarrow>
     (obstacles (game_object app) = [] \<or> stream_inv (obstacles (game_object app))) \<and>
     set (movement_stack (player (game_object app))) \<subseteq> {''True''}"

text \<open>
  A game that is played without any input, with the generator \<open>no_entropy\<close>, after
  \<open>k \<ge> 1\<close> cycles of \<^verbatim>\<open>run_game\<close>: the player has fallen \<open>k\<close> times (velocity
  \<open>k / 2\<close>, \<open>k (k + 1) / 4\<close> below the start) and the first pair has moved \<open>k - 1\<close>
  times.
\<close>

definition idle_player :: "nat \<Rightarrow> player" where
  "idle_player k =
     start_player
       \<lparr>y_velocity := real k / 2,
        player_rectangle :=
          \<lparr>item_id = 1,
           item_coords = \<lparr>LEFT_X = 40, TOP_Y = 300 + real k * (real k + 1) / 4,
                          RIGHT_X = 80, BOTTOM_Y = 340 + real k * (real k + 1) / 4\<rparr>\<rparr>\<rparr>"

definition idle_game :: "nat \<Rightarrow> game" where
  "idle_game k =
     (Game Canvas)\<lparr>player := idle_player k, obstacles := [pair 2 360 200 (k - 1)], canvas := 4\<rparr>"

definition idle_app :: "nat \<Rightarrow> application" where
  "idle_app k =
     Application\<lparr>menu_frame_packed := False, game_canvas_packed := True,
                 game_object := idle_game k\<rparr>"

text \<open>An obstacle just created, with item ids not below \<open>c\<close>, at one of the two spawn
  positions.\<close>

definition fresh_from :: "canvas \<Rightarrow> obstacle \<Rightarrow> bool" where
  "fresh_from c ob \<longleftrightarrow> (\<exists>c' x y. c \<le> c' \<and> (x = 360 \<or> x = 440) \<and> ob = pair c' x y 0)"

section \<open>The loop over the obstacle list terminates\<close>

lemma drop_Suc_remove1_nth:
  "i < length xs \<Longrightarrow> drop (Suc i) (remove1 (xs ! i) xs) = drop (Suc (Suc i)) xs"
proof (induction xs arbitrary: i)
  case Nil
  then show ?case by simp
next
  case (Cons a xs)
  show ?case
  proof (cases i)
    case 0
    then show ?thesis by simp
  next
    case (Suc k)
    with Cons show ?thesis by (cases "a = xs ! k") simp_all
  qed
qed

lemma halfway_Obstacle: "\<not> halfway (fst (Obstacle c x y))"
  by (simp add: Obstacle_def create_rectangle_def split: prod.splits)

lemma off_screen_Obstacle: "\<not> off_screen (fst (Obstacle c x y))"
  by (simp add: Obstacle_def create_rectangle_def split: prod.splits)

lemma fst_spawn: "fst (spawn x st) = fst st @ [fst (Obstacle (fst (snd st)) x (real_of_int (fst (randrange MIN_RANGE_OF_PIPES MAX_RANGE_OF_PIPES (snd (snd st))))))]"
  by (simp add: spawn_def split: prod.splits)

lemma filter_drop_Suc_le:
  "length (filter P (drop (Suc n) xs)) \<le> length (filter P (drop n xs))"
proof (cases "n < length xs")
  case True
  then have "drop n xs = xs ! n # drop (Suc n) xs" by (simp add: Cons_nth_drop_Suc)
  then show ?thesis by simp
next
  case False
  then show ?thesis by simp
qed

lemma filter_drop_snoc:
  "\<not> P new \<Longrightarrow> filter P (drop k (xs @ [new])) = filter P (drop k xs)"
  by (cases "k - length xs") simp_all

lemma pipes_body_decreases:
  assumes "i < length (fst st)"
  shows "loop_measure (Suc i) (fst (pipes_body (fst st ! i) st)) < loop_measure i (fst st)"
proof -
  obtain obs c e where st: "st = (obs, c, e)" by (cases st) auto
  let ?ob = "obs ! i"
  let ?cnt = "\<lambda>k xs. length (filter halfway (drop k xs))"
  from assms st have i: "i < length obs" by simp
  have d: "drop i obs = ?ob # drop (Suc i) obs" using i by (simp add: Cons_nth_drop_Suc)
  obtain new where new: "fst (spawn 440 st) = obs @ [new]" "\<not> halfway new"
    using fst_spawn[of 440 st] st halfway_Obstacle by simp
  obtain c' e' where sp: "spawn 440 st = (obs @ [new], c', e')"
    using new(1) by (cases "spawn 440 st") auto
  have le: "?cnt (Suc (Suc i)) obs \<le> ?cnt (Suc i) obs" by (rule filter_drop_Suc_le)
  show ?thesis
  proof (cases "halfway ?ob")
    case True
    then have c0: "?cnt i obs = Suc (?cnt (Suc i) obs)" using d by simp
    show ?thesis
    proof (cases "off_screen ?ob")
      case False
      have "fst (pipes_body ?ob st) = obs @ [new]"
        using True False sp st by (simp add: pipes_body_def)
      moreover have "?cnt (Suc i) (obs @ [new]) = ?cnt (Suc i) obs"
        by (simp only: filter_drop_snoc[of halfway new, OF new(2)])
      ultimately show ?thesis using c0 i st by (simp add: loop_measure_def)
    next
      case off: True
      have r: "fst (pipes_body ?ob st) = remove1 ?ob (obs @ [new])"
        using True off sp st by (simp add: pipes_body_def)
      have "?ob = (obs @ [new]) ! i" using i by (simp add: nth_append)
      then have "drop (Suc i) (remove1 ?ob (obs @ [new])) = drop (Suc (Suc i)) (obs @ [new])"
        using drop_Suc_remove1_nth[of i "obs @ [new]"] i by simp
      then have "?cnt (Suc i) (remove1 ?ob (obs @ [new])) = ?cnt (Suc (Suc i)) obs"
        by (simp only: filter_drop_snoc[of halfway new, OF new(2)])
      moreover have "length (remove1 ?ob (obs @ [new])) = length obs"
        using i by (simp add: length_remove1)
      ultimately show ?thesis using c0 i st r le by (simp add: loop_measure_def)
    qed
  next
    case False
    then have c0: "?cnt i obs = ?cnt (Suc i) obs" using d by simp
    show ?thesis
    proof (cases "off_screen ?ob")
      case nooff: False
      have "fst (pipes_body ?ob st) = obs"
        using False nooff st by (simp add: pipes_body_def)
      then show ?thesis using c0 i st by (simp add: loop_measure_def)
    next
      case off: True
      have r: "fst (pipes_body ?ob st) = remove1 ?ob obs"
        using False off st by (simp add: pipes_body_def)
      have "?cnt (Suc i) (remove1 ?ob obs) = ?cnt (Suc (Suc i)) obs"
        using drop_Suc_remove1_nth[of i obs] i by simp
      moreover have "length (remove1 ?ob obs) = length obs - 1"
        using i by (simp add: length_remove1)
      ultimately show ?thesis using c0 i st r le by (simp add: loop_measure_def)
    qed
  qed
qed

termination pipes_loop
  by (relation "measure (\<lambda>(i, st). loop_measure i (fst st))")
     (auto simp: pipes_body_decreases)


declare pipes_loop.simps [simp del]

section \<open>Properties of the player\<close>

lemma move_empty_stack:
  "movement_stack p = [] \<Longrightarrow> move p = Inr (fall p)"
  by (simp add: move_def fall_def Let_def)

lemma move_long_stack:
  "1 < length (movement_stack p) \<Longrightarrow>
     move p = Inr (p\<lparr>movement_stack := butlast (movement_stack p)\<rparr>)"
  by (cases "movement_stack p") (simp_all add: move_def)

lemmas player_defs = Game_def Player_def create_rectangle_def move_def fall_def flap_def
  list_remove_def canvas_move_def event_entered_def get_coordinates_def canvas_coords_def
  Canvas_def Let_def start_player_def space_key_def

lemma event_entered_match:
  "keysym ev = control_key p \<or> num ev = Some (control_button p) \<Longrightarrow>
     events_entered n ev p = p\<lparr>movement_stack := movement_stack p @ replicate n ''True''\<rparr>"
  by (induction n) (auto simp: event_entered_def replicate_append_same)

lemma move_pending:
  assumes "keysym ev = control_key p \<or> num ev = Some (control_button p)"
  shows "move (events_entered (Suc (Suc n)) ev p) = Inr (events_entered (Suc n) ev p)"
  using assms
  by (simp only: event_entered_match)
     (simp add: move_long_stack butlast_append replicate_append_same[symmetric])

lemma moves_pending:
  assumes "keysym ev = control_key p \<or> num ev = Some (control_button p)"
  shows "k < N \<Longrightarrow> moves k (events_entered N ev p) = Inr (events_entered (N - k) ev p)"
proof (induction k arbitrary: N)
  case 0
  then show ?case by simp
next
  case (Suc k)
  then obtain m where N: "N = Suc (Suc m)" and km: "k < Suc m"
    by (cases N; cases "N - 1") auto
  have "moves (Suc k) (events_entered N ev p) = moves k (events_entered (Suc m) ev p)"
    unfolding N using move_pending[OF assms, of m] by (simp del: events_entered.simps)
  also have "\<dots> = Inr (events_entered (Suc m - k) ev p)" using Suc.IH[OF km] .
  finally show ?case using N by simp
qed

text \<open>
  Claim C9. The player of a new game is the rectangle (40, 300, 80, 340) with velocity 0.
  One tick with no boost pending sets the velocity to 5 * 0.1 = 0.5 and moves the rectangle
  down by 0.5. One tick with a boost pending sets the velocity to -5 * 1.6 = -8 and moves
  the rectangle up by 8, from the start position as well as after the fall tick.
\<close>

theorem scenario_fall_and_boost:
  "start_player =
     \<lparr>player_rectangle =
        \<lparr>item_id = 1,
         item_coords = \<lparr>LEFT_X = 40, TOP_Y = 300, RIGHT_X = 80, BOTTOM_Y = 340\<rparr>\<rparr>,
      control_key = ''space'', control_button = 1, y_velocity = 0, movement_stack = []\<rparr> \<and>
   ACCELERATION * FALL_TIME = 1 / 2 \<and>
   move start_player =
     Inr (start_player
            \<lparr>y_velocity := 1 / 2,
             player_rectangle :=
               \<lparr>item_id = 1,
                item_coords = \<lparr>LEFT_X = 40, TOP_Y = 300 + 1 / 2,
                               RIGHT_X = 80, BOTTOM_Y = 340 + 1 / 2\<rparr>\<rparr>\<rparr>) \<and>
   - ACCELERATION * JUMP_TIME = - 8 \<and>
   move (event_entered start_player space_key) =
     Inr (start_player
            \<lparr>y_velocity := - 8,
             player_rectangle :=
               \<lparr>item_id = 1,
                item_coords = \<lparr>LEFT_X = 40, TOP_Y = 300 - 8,
                               RIGHT_X = 80, BOTTOM_Y = 340 - 8\<rparr>\<rparr>\<rparr>) \<and>
   move (event_entered (fall start_player) space_key) =
     Inr (start_player
            \<lparr>y_velocity := - 8,
             player_rectangle :=
               \<lparr>item_id = 1,
                item_coords = \<lparr>LEFT_X = 40, TOP_Y = 300 + 1 / 2 - 8,
                               RIGHT_X = 80, BOTTOM_Y = 340 + 1 / 2 - 8\<rparr>\<rparr>\<rparr>)"
  by (simp add: player_defs)

text \<open>
  Claim C10. When more than one boost is pending, a tick of the player runs neither
  \<^verbatim>\<open>_fall\<close> nor \<^verbatim>\<open>_flap\<close>: the result is the same player, rectangle and velocity
  unchanged, with the last pending input removed, so the queue is shorter by exactly one.
\<close>

theorem move_with_several_pending:
  assumes "1 < length (movement_stack p)"
  shows "move p = Inr (p\<lparr>movement_stack := butlast (movement_stack p)\<rparr>) \<and>
         get_coordinates (p\<lparr>movement_stack := butlast (movement_stack p)\<rparr>) = get_coordinates p \<and>
         y_velocity (p\<lparr>movement_stack := butlast (movement_stack p)\<rparr>) = y_velocity p \<and>
         Suc (length (butlast (movement_stack p))) = length (movement_stack p)"
  using assms by (simp add: move_long_stack get_coordinates_def)

theorem move_with_several_pending_witness:
  "1 < length (movement_stack (events_entered 3 space_key start_player)) \<and>
   move (events_entered 3 space_key start_player) =
     Inr (start_player\<lparr>movement_stack := [''True'', ''True'']\<rparr>)"
  using move_with_several_pending [of "events_entered 3 space_key start_player"]
  by (simp add: player_defs eval_nat_numeral)

text \<open>
  Claim C2, on the code. \<^verbatim>\<open>event_entered\<close> appends one entry per event, without a cap.
  After one boost event the first tick flaps (top edge 292, velocity -8) and the second
  falls (top edge 284.5, velocity -7.5). After two boost events between the same two ticks
  the first tick runs neither \<^verbatim>\<open>_fall\<close> nor \<^verbatim>\<open>_flap\<close>: the player stays at 300 with
  velocity 0 and one entry is popped; the flap comes one tick later. The positions and
  velocities after two events are not those after one.
\<close>

theorem two_boosts_freeze_one_tick:
  "map_sum id (\<lambda>p. (TOP_Y (get_coordinates p), y_velocity p, movement_stack p))
     (moves 1 (events_entered 1 space_key start_player)) = Inr (292, - 8, []) \<and>
   map_sum id (\<lambda>p. (TOP_Y (get_coordinates p), y_velocity p, movement_stack p))
     (moves 1 (events_entered 2 space_key start_player)) = Inr (300, 0, [''True'']) \<and>
   map_sum id (\<lambda>p. (TOP_Y (get_coordinates p), y_velocity p, movement_stack p))
     (moves 2 (events_entered 1 space_key start_player)) = Inr (292 - 15 / 2, - 15 / 2, []) \<and>
   map_sum id (\<lambda>p. (TOP_Y (get_coordinates p), y_velocity p, movement_stack p))
     (moves 2 (events_entered 2 space_key start_player)) = Inr (292, - 8, [])"
  by (simp add: player_defs eval_nat_numeral)


text \<open>
  In general the queue is drained one entry per tick: with \<open>N\<close> boost events pending on
  top of the stack of \<open>p\<close>, \<open>k < N\<close> ticks leave the player with \<open>N - k\<close> of them,
  its rectangle and velocity unchanged.
\<close>

lemma pending_boosts_drained:
  assumes "keysym ev = control_key p \<or> num ev = Some (control_button p)"
    and "k < N"
  shows "moves k (events_entered N ev p) = Inr (events_entered (N - k) ev p) \<and>
         get_coordinates (events_entered (N - k) ev p) = get_coordinates p \<and>
         y_velocity (events_entered (N - k) ev p) = y_velocity p \<and>
         movement_stack (events_entered (N - k) ev p) =
           movement_stack p @ replicate (N - k) ''True''"
  using moves_pending[OF assms] event_entered_match[OF assms(1), of "N - k"]
  by (simp add: get_coordinates_def)

section \<open>Properties of an obstacle pair\<close>

lemmas obstacle_defs = Obstacle_def create_rectangle_def move_obstacle_def
  check_obstacle_positions_def canvas_move_def canvas_coords_def Let_def

lemma pair_explicit:
  "pair c x y n =
     \<lparr>top_rectangle =
        \<lparr>item_id = c,
         item_coords = \<lparr>LEFT_X = x - 2 * real n, TOP_Y = y - 640,
                        RIGHT_X = x + 70 - 2 * real n, BOTTOM_Y = y - 150\<rparr>\<rparr>,
      bottom_rectangle =
        \<lparr>item_id = Suc c,
         item_coords = \<lparr>LEFT_X = x - 2 * real n, TOP_Y = y,
                        RIGHT_X = x + 70 - 2 * real n, BOTTOM_Y = y + 640\<rparr>\<rparr>,
      top_obstacle_position =
        \<lparr>LEFT_X = x - 2 * real n, TOP_Y = y - 640,
         RIGHT_X = x + 70 - 2 * real n, BOTTOM_Y = y - 150\<rparr>,
      bottom_obstacle_position =
        \<lparr>LEFT_X = x - 2 * real n, TOP_Y = y,
         RIGHT_X = x + 70 - 2 * real n, BOTTOM_Y = y + 640\<rparr>,
      halfway = (0 < n \<and> x - 2 * real n = 180),
      off_screen = (0 < n \<and> x + 70 - 2 * real n \<le> 0)\<rparr>"
proof (induction n)
  case 0
  show ?case by (simp add: pair_def obstacle_defs)
next
  case (Suc n)
  have "pair c x y (Suc n) = move_obstacle (pair c x y n)" by (simp add: pair_def)
  then show ?case
    by (simp only: Suc.IH) (auto simp add: move_obstacle_def check_obstacle_positions_def canvas_move_def canvas_coords_def Let_def algebra_simps)
qed

lemma halfway_move_obstacle:
  "halfway (move_obstacle ob) \<longleftrightarrow> LEFT_X (bottom_obstacle_position (move_obstacle ob)) = 180"
  by (simp add: move_obstacle_def check_obstacle_positions_def canvas_move_def canvas_coords_def Let_def)


section \<open>Properties of the obstacle stream\<close>

lemma gap_centre_range: "200 \<le> gap_centre e \<and> gap_centre e < 600"
proof -
  have "0 \<le> int (e 0) mod 400" "int (e 0) mod 400 < 400" by simp_all
  then show ?thesis by (simp add: gap_centre_def randrange_def)
qed

lemma spawn_pair:
  "spawn x (obs, c, e) = (obs @ [pair c x (gap_centre e) 0], Suc (Suc c), rest e)"
  by (simp add: spawn_def pair_def gap_centre_def rest_def Obstacle_def create_rectangle_def
      split: prod.splits)

lemma pipes_loop_end: "length obs \<le> i \<Longrightarrow> pipes_loop i (obs, c, e) = (obs, c, e)"
  by (simp add: pipes_loop.simps)

lemma pipes_loop_step:
  "i < length obs \<Longrightarrow>
     pipes_loop i (obs, c, e) = pipes_loop (Suc i) (pipes_body (obs ! i) (obs, c, e))"
  by (subst pipes_loop.simps) simp

lemma pipes_body_plain:
  "\<not> halfway ob \<Longrightarrow> \<not> off_screen ob \<Longrightarrow> pipes_body ob st = st"
  by (cases st) (simp add: pipes_body_def)

lemma pipes_body_halfway:
  "halfway ob \<Longrightarrow> \<not> off_screen ob \<Longrightarrow>
     pipes_body ob (obs, c, e) = (obs @ [pair c 440 (gap_centre e) 0], Suc (Suc c), rest e)"
  by (simp add: pipes_body_def spawn_pair)

lemma pipes_body_off:
  "\<not> halfway ob \<Longrightarrow> off_screen ob \<Longrightarrow>
     pipes_body ob (obs, c, e) = (remove1 ob obs, c, e)"
  by (simp add: pipes_body_def)

lemma fresh_flags: "\<not> halfway (pair c x y 0)" "\<not> off_screen (pair c x y 0)"
  by (simp_all add: pair_explicit)

lemma manage_pipes_empty:
  "obstacles g = [] \<Longrightarrow>
     manage_pipes g e =
       (g\<lparr>obstacles := [pair (canvas g) 360 (gap_centre e) 0], canvas := Suc (Suc (canvas g))\<rparr>,
        rest e)"
  by (simp add: manage_pipes_def spawn_pair pipes_loop_step pipes_loop_end
      pipes_body_plain fresh_flags)

lemma manage_pipes_single_plain:
  assumes "obstacles g = [a]" "\<not> halfway (move_obstacle a)" "\<not> off_screen (move_obstacle a)"
  shows "manage_pipes g e = (g\<lparr>obstacles := [move_obstacle a], canvas := canvas g\<rparr>, e)"
  using assms
  by (simp add: manage_pipes_def pipes_loop_step pipes_loop_end pipes_body_plain)

lemma manage_pipes_single_halfway:
  assumes "obstacles g = [a]" "halfway (move_obstacle a)" "\<not> off_screen (move_obstacle a)"
  shows "manage_pipes g e =
     (g\<lparr>obstacles := [move_obstacle a, pair (canvas g) 440 (gap_centre e) 0],
        canvas := Suc (Suc (canvas g))\<rparr>, rest e)"
  using assms
  by (simp add: manage_pipes_def pipes_loop_step pipes_loop_end pipes_body_plain
      pipes_body_halfway fresh_flags)

lemma manage_pipes_double_plain:
  assumes "obstacles g = [a, b]" "\<not> halfway (move_obstacle a)" "\<not> off_screen (move_obstacle a)"
    "\<not> halfway (move_obstacle b)" "\<not> off_screen (move_obstacle b)"
  shows "manage_pipes g e =
     (g\<lparr>obstacles := [move_obstacle a, move_obstacle b], canvas := canvas g\<rparr>, e)"
  using assms
  by (simp add: manage_pipes_def pipes_loop_step pipes_loop_end pipes_body_plain)

lemma manage_pipes_double_off:
  assumes "obstacles g = [a, b]" "\<not> halfway (move_obstacle a)" "off_screen (move_obstacle a)"
  shows "manage_pipes g e = (g\<lparr>obstacles := [move_obstacle b], canvas := canvas g\<rparr>, e)"
  using assms
  by (simp add: manage_pipes_def pipes_loop_step pipes_loop_end pipes_body_off)


lemma move_pair: "move_obstacle (pair c x y n) = pair c x y (Suc n)"
  by (simp add: pair_def)

lemma halfway_pair: "halfway (pair c x y n) \<longleftrightarrow> 0 < n \<and> x - 2 * real n = 180"
  by (simp add: pair_explicit)

lemma off_screen_pair: "off_screen (pair c x y n) \<longleftrightarrow> 0 < n \<and> x + 70 - 2 * real n \<le> 0"
  by (simp add: pair_explicit)

lemma halfway_pair_360: "halfway (pair c 360 y n) \<longleftrightarrow> n = 90"
  by (auto simp: halfway_pair)

lemma halfway_pair_440: "halfway (pair c 440 y n) \<longleftrightarrow> n = 130"
  by (auto simp: halfway_pair)

lemma off_screen_pair_360: "off_screen (pair c 360 y n) \<longleftrightarrow> 215 \<le> n"
  by (auto simp: off_screen_pair)

lemma off_screen_pair_440: "off_screen (pair c 440 y n) \<longleftrightarrow> 255 \<le> n"
  by (auto simp: off_screen_pair)

lemma stream_inv_single_360: "n < 90 \<Longrightarrow> stream_inv [pair c 360 y n]"
  unfolding stream_inv_def by (rule disjI1) (intro exI conjI, rule refl, assumption)

lemma stream_inv_single_440: "n < 130 \<Longrightarrow> stream_inv [pair c 440 y n]"
  unfolding stream_inv_def
  by (rule disjI2, rule disjI1) (intro exI conjI, rule refl, assumption)

lemma stream_inv_double_360:
  "n < 125 \<Longrightarrow> stream_inv [pair c 360 y (90 + n), pair c' 440 y' n]"
  unfolding stream_inv_def
  by (rule disjI2, rule disjI2, rule disjI1) (intro exI conjI, rule refl, assumption)

lemma stream_inv_double_440:
  "n < 125 \<Longrightarrow> stream_inv [pair c 440 y (130 + n), pair c' 440 y' n]"
  unfolding stream_inv_def
  by (rule disjI2, rule disjI2, rule disjI2) (intro exI conjI, rule refl, assumption)

lemma stream_inv_manage_pipes:
  assumes "obstacles g = [] \<or> stream_inv (obstacles g)"
  shows "stream_inv (obstacles (fst (manage_pipes g e)))"
proof -
  consider (empty) "obstacles g = []"
    | (s360) c y n where "obstacles g = [pair c 360 y n]" "n < 90"
    | (s440) c y n where "obstacles g = [pair c 440 y n]" "n < 130"
    | (d360) c y n c' y' where "obstacles g = [pair c 360 y (90 + n), pair c' 440 y' n]" "n < 125"
    | (d440) c y n c' y' where "obstacles g = [pair c 440 y (130 + n), pair c' 440 y' n]" "n < 125"
    using assms unfolding stream_inv_def by blast
  then show ?thesis
  proof cases
    case empty
    then show ?thesis
      using stream_inv_single_360[of 0] by (simp add: manage_pipes_empty)
  next
    case s360
    show ?thesis
    proof (cases "Suc n = 90")
      case True
      then have "obstacles (fst (manage_pipes g e)) =
          [pair c 360 y (90 + 0), pair (canvas g) 440 (gap_centre e) 0]"
        using s360
        by (simp add: manage_pipes_single_halfway move_pair halfway_pair_360 off_screen_pair_360)
      then show ?thesis using stream_inv_double_360[of 0] by simp
    next
      case False
      then have "obstacles (fst (manage_pipes g e)) = [pair c 360 y (Suc n)]"
        using s360
        by (simp add: manage_pipes_single_plain move_pair halfway_pair_360 off_screen_pair_360)
      moreover have "Suc n < 90" using False s360 by simp
      ultimately show ?thesis using stream_inv_single_360 by simp
    qed
  next
    case s440
    show ?thesis
    proof (cases "Suc n = 130")
      case True
      then have "obstacles (fst (manage_pipes g e)) =
          [pair c 440 y (130 + 0), pair (canvas g) 440 (gap_centre e) 0]"
        using s440
        by (simp add: manage_pipes_single_halfway move_pair halfway_pair_440 off_screen_pair_440)
      then show ?thesis using stream_inv_double_440[of 0] by simp
    next
      case False
      then have "obstacles (fst (manage_pipes g e)) = [pair c 440 y (Suc n)]"
        using s440
        by (simp add: manage_pipes_single_plain move_pair halfway_pair_440 off_screen_pair_440)
      moreover have "Suc n < 130" using False s440 by simp
      ultimately show ?thesis using stream_inv_single_440 by simp
    qed
  next
    case d360
    show ?thesis
    proof (cases "Suc n = 125")
      case True
      then have "obstacles (fst (manage_pipes g e)) = [pair c' 440 y' 125]"
        using d360
        by (simp add: manage_pipes_double_off move_pair halfway_pair_360 off_screen_pair_360)
      then show ?thesis using stream_inv_single_440[of 125] by simp
    next
      case False
      then have "obstacles (fst (manage_pipes g e)) =
          [pair c 360 y (90 + Suc n), pair c' 440 y' (Suc n)]"
        using d360
        by (simp add: manage_pipes_double_plain move_pair halfway_pair_360
            off_screen_pair_360 halfway_pair_440 off_screen_pair_440)
      moreover have "Suc n < 125" using False d360 by simp
      ultimately show ?thesis using stream_inv_double_360[of "Suc n"] by (simp only:)
    qed
  next
    case d440
    show ?thesis
    proof (cases "Suc n = 125")
      case True
      then have "obstacles (fst (manage_pipes g e)) = [pair c' 440 y' 125]"
        using d440
        by (simp add: manage_pipes_double_off move_pair halfway_pair_440 off_screen_pair_440)
      then show ?thesis using stream_inv_single_440[of 125] by simp
    next
      case False
      then have "obstacles (fst (manage_pipes g e)) =
          [pair c 440 y (130 + Suc n), pair c' 440 y' (Suc n)]"
        using d440
        by (simp add: manage_pipes_double_plain move_pair halfway_pair_440 off_screen_pair_440)
      moreover have "Suc n < 125" using False d440 by simp
      ultimately show ?thesis using stream_inv_double_440[of "Suc n"] by (simp only:)
    qed
  qed
qed


lemma ticks_first_phase:
  assumes "obstacles g = []"
  shows "k < 90 \<Longrightarrow>
     pipes_ticks (Suc k) g e =
       (g\<lparr>obstacles := [pair (canvas g) 360 (gap_centre e) k],
          canvas := Suc (Suc (canvas g))\<rparr>, rest e)"
proof (induction k)
  case 0
  show ?case using assms by (simp add: manage_pipes_empty)
next
  case (Suc k)
  then have "pipes_ticks (Suc k) g e =
       (g\<lparr>obstacles := [pair (canvas g) 360 (gap_centre e) k],
          canvas := Suc (Suc (canvas g))\<rparr>, rest e)" by simp
  moreover have "Suc k \<noteq> 90" "\<not> 215 \<le> Suc k" using Suc.prems by simp_all
  ultimately show ?case
    by (simp add: manage_pipes_single_plain move_pair halfway_pair_360 off_screen_pair_360
        del: pipes_ticks.simps(2))
       (simp add: manage_pipes_single_plain move_pair halfway_pair_360 off_screen_pair_360)
qed

lemma pipes_ticks_Suc:
  "pipes_ticks n g e = (g', e') \<Longrightarrow> pipes_ticks (Suc n) g e = manage_pipes g' e'"
  by simp

lemma ticks_second_phase:
  assumes "obstacles g = []"
  shows "k < 125 \<Longrightarrow>
     pipes_ticks (Suc (90 + k)) g e =
       (g\<lparr>obstacles := [pair (canvas g) 360 (gap_centre e) (90 + k),
                         pair (Suc (Suc (canvas g))) 440 (gap_centre (rest e)) k],
          canvas := Suc (Suc (Suc (Suc (canvas g))))\<rparr>, rest (rest e))"
proof (induction k)
  case 0
  have "pipes_ticks (Suc 89) g e =
       (g\<lparr>obstacles := [pair (canvas g) 360 (gap_centre e) 89],
          canvas := Suc (Suc (canvas g))\<rparr>, rest e)"
    by (rule ticks_first_phase[OF assms]) simp
  then have "pipes_ticks 90 g e =
       (g\<lparr>obstacles := [pair (canvas g) 360 (gap_centre e) 89],
          canvas := Suc (Suc (canvas g))\<rparr>, rest e)" by simp
  from pipes_ticks_Suc[OF this] have "pipes_ticks (Suc 90) g e =
       (g\<lparr>obstacles := [pair (canvas g) 360 (gap_centre e) 90,
                         pair (Suc (Suc (canvas g))) 440 (gap_centre (rest e)) 0],
          canvas := Suc (Suc (Suc (Suc (canvas g))))\<rparr>, rest (rest e))"
    by (simp add: manage_pipes_single_halfway move_pair halfway_pair_360 off_screen_pair_360)
  then show ?case by (simp only: add_0_right)
next
  case (Suc k)
  then have "pipes_ticks (Suc (90 + k)) g e =
       (g\<lparr>obstacles := [pair (canvas g) 360 (gap_centre e) (90 + k),
                         pair (Suc (Suc (canvas g))) 440 (gap_centre (rest e)) k],
          canvas := Suc (Suc (Suc (Suc (canvas g))))\<rparr>, rest (rest e))" by simp
  from pipes_ticks_Suc[OF this] have "pipes_ticks (Suc (Suc (90 + k))) g e =
       (g\<lparr>obstacles := [pair (canvas g) 360 (gap_centre e) (Suc (90 + k)),
                         pair (Suc (Suc (canvas g))) 440 (gap_centre (rest e)) (Suc k)],
          canvas := Suc (Suc (Suc (Suc (canvas g))))\<rparr>, rest (rest e))"
    using Suc.prems
    by (simp add: manage_pipes_double_plain move_pair halfway_pair_360 off_screen_pair_360
        halfway_pair_440 off_screen_pair_440)
  then show ?case by (simp only: add_Suc_right)
qed

lemma ticks_first_removal:
  assumes "obstacles g = []"
  shows "pipes_ticks 216 g e =
       (g\<lparr>obstacles := [pair (Suc (Suc (canvas g))) 440 (gap_centre (rest e)) 125],
          canvas := Suc (Suc (Suc (Suc (canvas g))))\<rparr>, rest (rest e))"
proof -
  have "pipes_ticks (Suc (90 + 124)) g e =
       (g\<lparr>obstacles := [pair (canvas g) 360 (gap_centre e) (90 + 124),
                         pair (Suc (Suc (canvas g))) 440 (gap_centre (rest e)) 124],
          canvas := Suc (Suc (Suc (Suc (canvas g))))\<rparr>, rest (rest e))"
    by (rule ticks_second_phase[OF assms]) simp
  then have "pipes_ticks 215 g e =
       (g\<lparr>obstacles := [pair (canvas g) 360 (gap_centre e) 214,
                         pair (Suc (Suc (canvas g))) 440 (gap_centre (rest e)) 124],
          canvas := Suc (Suc (Suc (Suc (canvas g))))\<rparr>, rest (rest e))" by simp
  from pipes_ticks_Suc[OF this] have "pipes_ticks (Suc 215) g e =
       (g\<lparr>obstacles := [pair (Suc (Suc (canvas g))) 440 (gap_centre (rest e)) 125],
          canvas := Suc (Suc (Suc (Suc (canvas g))))\<rparr>, rest (rest e))"
    by (simp add: manage_pipes_double_off move_pair halfway_pair_360 off_screen_pair_360)
  then show ?thesis by simp
qed

lemma stream_inv_ticks:
  assumes "obstacles g = [] \<or> stream_inv (obstacles g)"
  shows "stream_inv (obstacles (fst (pipes_ticks (Suc n) g e)))"
proof (induction n)
  case 0
  show ?case using stream_inv_manage_pipes[OF assms] by simp
next
  case (Suc n)
  obtain g' e' where p: "pipes_ticks (Suc n) g e = (g', e')" by (cases "pipes_ticks (Suc n) g e")
  with Suc have "stream_inv (obstacles g')" by simp
  then have "stream_inv (obstacles (fst (manage_pipes g' e')))"
    by (intro stream_inv_manage_pipes) simp
  moreover have "pipes_ticks (Suc (Suc n)) g e = manage_pipes g' e'"
    using p pipes_ticks.simps(2)[of "Suc n" g e] by simp
  ultimately show ?case by simp
qed

lemma stream_inv_facts:
  assumes "stream_inv obs"
  shows "obs \<noteq> []" "length obs \<le> 2" "\<forall>ob\<in>set obs. \<not> off_screen ob"
  using assms unfolding stream_inv_def
  by (auto simp: off_screen_pair_360 off_screen_pair_440)


lemma subseq_remove1: "subseq (remove1 x xs) xs"
  by (induction xs) auto

lemma pipes_body_kept:
  "\<exists>news. subseq (fst (pipes_body ob (obs, c, e))) (obs @ news) \<and>
          (\<forall>n\<in>set news. fresh_from c n) \<and> c \<le> fst (snd (pipes_body ob (obs, c, e)))"
proof (cases "halfway ob")
  case True
  have f: "fresh_from c (pair c 440 (gap_centre e) 0)"
    unfolding fresh_from_def by blast
  have "subseq (fst (pipes_body ob (obs, c, e))) (obs @ [pair c 440 (gap_centre e) 0])"
    using True by (simp add: pipes_body_def spawn_pair subseq_remove1)
  moreover have "c \<le> fst (snd (pipes_body ob (obs, c, e)))"
    using True by (simp add: pipes_body_def spawn_pair)
  ultimately show ?thesis using f by (intro exI[of _ "[pair c 440 (gap_centre e) 0]"]) simp
next
  case False
  then have "subseq (fst (pipes_body ob (obs, c, e))) (obs @ [])"
    by (simp add: pipes_body_def subseq_remove1)
  moreover have "c \<le> fst (snd (pipes_body ob (obs, c, e)))"
    using False by (simp add: pipes_body_def)
  ultimately show ?thesis by (intro exI[of _ "[]"]) simp
qed

lemma fresh_from_mono:
  assumes "c \<le> c'" "fresh_from c' ob"
  shows "fresh_from c ob"
proof -
  from assms(2) obtain d x y where d: "c' \<le> d" "x = 360 \<or> x = 440" "ob = pair d x y 0"
    unfolding fresh_from_def by blast
  from d(1) assms(1) have "c \<le> d" by simp
  with d(2,3) show ?thesis unfolding fresh_from_def by blast
qed

lemma pipes_loop_kept:
  "\<exists>news. subseq (fst (pipes_loop i st)) (fst st @ news) \<and>
          (\<forall>n\<in>set news. fresh_from (fst (snd st)) n)"
proof (induction i st rule: pipes_loop.induct)
  case (1 i st)
  obtain obs c e where st: "st = (obs, c, e)" by (cases st) auto
  show ?case
  proof (cases "i < length (fst st)")
    case False
    then have "pipes_loop i st = st" by (subst pipes_loop.simps) simp
    then show ?thesis by (intro exI[of _ "[]"]) simp
  next
    case True
    let ?st' = "pipes_body (fst st ! i) st"
    from 1[OF True] obtain news2 where
      n2: "subseq (fst (pipes_loop (Suc i) ?st')) (fst ?st' @ news2)"
          "\<forall>n\<in>set news2. fresh_from (fst (snd ?st')) n" by blast
    from pipes_body_kept[of "obs ! i" obs c e] st obtain news1 where
      n1: "subseq (fst ?st') (obs @ news1)" "\<forall>n\<in>set news1. fresh_from c n"
          "c \<le> fst (snd ?st')" by auto
    have "subseq (fst ?st' @ news2) ((obs @ news1) @ news2)"
      using n1(1) by (intro list_emb_append_mono) simp_all
    with n2(1) have "subseq (fst (pipes_loop (Suc i) ?st')) (obs @ (news1 @ news2))"
      by (metis append.assoc subseq_order.order_trans)
    moreover have "\<forall>n\<in>set (news1 @ news2). fresh_from c n"
      using n1(2,3) n2(2) fresh_from_mono by auto
    moreover have "pipes_loop i st = pipes_loop (Suc i) ?st'"
      using True by (subst pipes_loop.simps) simp
    ultimately show ?thesis using st by (intro exI[of _ "news1 @ news2"]) simp
  qed
qed

lemma manage_pipes_kept:
  "\<exists>news. subseq (obstacles (fst (manage_pipes g e))) (map move_obstacle (obstacles g) @ news) \<and>
          (\<forall>n\<in>set news. fresh_from (canvas g) n)"
proof (cases "obstacles g = []")
  case True
  have "fresh_from (canvas g) (pair (canvas g) 360 (gap_centre e) 0)"
    unfolding fresh_from_def by blast
  then show ?thesis using True
    by (intro exI[of _ "[pair (canvas g) 360 (gap_centre e) 0]"]) (simp add: manage_pipes_empty)
next
  case False
  from pipes_loop_kept[of 0 "(map move_obstacle (obstacles g), canvas g, e)"]
  obtain news where "subseq (fst (pipes_loop 0 (map move_obstacle (obstacles g), canvas g, e)))
      (map move_obstacle (obstacles g) @ news)" "\<forall>n\<in>set news. fresh_from (canvas g) n"
    by auto
  then show ?thesis using False
    by (cases "pipes_loop 0 (map move_obstacle (obstacles g), canvas g, e)")
       (auto simp: manage_pipes_def intro!: exI[of _ news])
qed


section \<open>The claims about obstacle pairs and the stream\<close>

lemma gap_centre_no_entropy: "gap_centre no_entropy = 200" "rest no_entropy = no_entropy"
  by (simp_all add: gap_centre_def rest_def randrange_def no_entropy_def)

lemma new_game: "obstacles (Game Canvas) = []" "canvas (Game Canvas) = 2"
  by (simp_all add: Game_def Player_def create_rectangle_def Canvas_def)

text \<open>
  Claim C5, as stated: the flag \<^verbatim>\<open>halfway\<close> is true on every tick at or after the
  tick on which the left edge reaches the midpoint 180. The first pair of a game has its
  left edge at 180 after 90 moves and the flag is true; one tick later the left edge is at
  178, past the midpoint, and the flag is false again.
\<close>

theorem halfway_not_sticky_counterexample:
  "halfway (pair 2 360 200 90) \<and>
   LEFT_X (bottom_obstacle_position (pair 2 360 200 90)) = 180 \<and>
   LEFT_X (bottom_obstacle_position (pair 2 360 200 91)) = 178 \<and>
   \<not> halfway (pair 2 360 200 91)"
  by (simp add: pair_explicit)

text \<open>
  Claim C5, amended. After every call of \<^verbatim>\<open>move_obstacle\<close> the flag \<^verbatim>\<open>halfway\<close> is
  true exactly when the left edge is at the midpoint \<^verbatim>\<open>_SCREEN_WIDTH / 2 = 180\<close> on that
  tick, and false on every other tick, before and after: for a pair spawned at 360 only
  on its 90th tick, for a pair spawned at 440 only on its 130th.
\<close>

theorem halfway_exactly_at_midpoint:
  "(halfway (move_obstacle ob) \<longleftrightarrow>
      LEFT_X (bottom_obstacle_position (move_obstacle ob)) = SCREEN_WIDTH / 2) \<and>
   (halfway (pair c x y n) \<longleftrightarrow>
      0 < n \<and> LEFT_X (bottom_obstacle_position (pair c x y n)) = 180) \<and>
   (halfway (pair c 360 y n) \<longleftrightarrow> n = 90) \<and>
   (halfway (pair c 440 y n) \<longleftrightarrow> n = 130)"
  using halfway_move_obstacle[of ob] halfway_pair_360[of c y n] halfway_pair_440[of c y n]
  by (simp add: pair_explicit)

theorem halfway_exactly_at_midpoint_witness:
  "halfway (move_obstacle (pair 2 360 200 89)) \<and>
   LEFT_X (bottom_obstacle_position (move_obstacle (pair 2 360 200 89))) = 180 \<and>
   \<not> halfway (move_obstacle (pair 2 360 200 90)) \<and>
   LEFT_X (bottom_obstacle_position (move_obstacle (pair 2 360 200 90))) = 178"
  using halfway_exactly_at_midpoint [of "pair 2 360 200 89" 2 360 200 90]
    halfway_exactly_at_midpoint [of "pair 2 360 200 90" 2 360 200 91]
  by (simp only: move_pair) (simp add: pair_explicit)

text \<open>
  Claim C7. For every pair, whatever its gap centre \<open>y\<close> (the stream draws it from
  \<open>[200, 600)\<close>) and on every tick \<open>n\<close> of its life, the top barrier and the bottom
  barrier do not overlap: the lower edge of the top barrier is exactly
  \<^verbatim>\<open>_OBSTACLE_GAP = 150\<close> above the upper edge of the bottom barrier, and both have the
  same left and right edges, which move left by 2 per tick.
\<close>

theorem barriers_never_overlap:
  "\<not> boxes_overlap (top_obstacle_position (pair c x y n))
       (bottom_obstacle_position (pair c x y n)) \<and>
   BOTTOM_Y (top_obstacle_position (pair c x y n)) + OBSTACLE_GAP =
     TOP_Y (bottom_obstacle_position (pair c x y n)) \<and>
   TOP_Y (top_obstacle_position (pair c x y n)) \<le> BOTTOM_Y (top_obstacle_position (pair c x y n)) \<and>
   TOP_Y (bottom_obstacle_position (pair c x y n)) \<le> BOTTOM_Y (bottom_obstacle_position (pair c x y n)) \<and>
   LEFT_X (top_obstacle_position (pair c x y n)) = x + real n * MOVEMENT_SPEED \<and>
   LEFT_X (bottom_obstacle_position (pair c x y n)) = x + real n * MOVEMENT_SPEED \<and>
   RIGHT_X (top_obstacle_position (pair c x y n)) = x + OBSTACLE_WIDTH + real n * MOVEMENT_SPEED \<and>
   RIGHT_X (bottom_obstacle_position (pair c x y n)) = x + OBSTACLE_WIDTH + real n * MOVEMENT_SPEED \<and>
   item_coords (top_rectangle (pair c x y n)) = top_obstacle_position (pair c x y n) \<and>
   item_coords (bottom_rectangle (pair c x y n)) = bottom_obstacle_position (pair c x y n) \<and>
   fst (spawn x (obs, c, e)) = obs @ [pair c x (gap_centre e) 0] \<and>
   200 \<le> gap_centre e \<and> gap_centre e < 600"
  using gap_centre_range[of e]
  by (simp add: pair_explicit boxes_overlap_def spawn_pair)

theorem barriers_never_overlap_witness:
  "top_obstacle_position (pair 2 360 200 90) =
     \<lparr>LEFT_X = 180, TOP_Y = - 440, RIGHT_X = 250, BOTTOM_Y = 50\<rparr> \<and>
   bottom_obstacle_position (pair 2 360 200 90) =
     \<lparr>LEFT_X = 180, TOP_Y = 200, RIGHT_X = 250, BOTTOM_Y = 840\<rparr> \<and>
   \<not> boxes_overlap (top_obstacle_position (pair 2 360 200 90))
       (bottom_obstacle_position (pair 2 360 200 90))"
  using barriers_never_overlap [of 2 360 200 90]
  by (simp add: pair_explicit)

text \<open>
  Claim C6. On an empty stream the first tick spawns exactly one pair, with its left edge
  at 360 and the drawn value of \<open>[200, 600)\<close> as gap centre. On the following 89 ticks
  the stream is that pair alone, moved left by 2 per tick and not flagged. On the tick that
  brings its left edge to exactly 180 it is flagged \<^verbatim>\<open>halfway\<close> and exactly one new pair
  is appended, with its left edge at 440 = 360 + 80.
\<close>

theorem first_pair_and_midpoint_spawn:
  assumes "obstacles g = []"
  shows "obstacles (fst (pipes_ticks 1 g e)) = [pair (canvas g) 360 (gap_centre e) 0] \<and>
         LEFT_X (bottom_obstacle_position (pair (canvas g) 360 (gap_centre e) 0)) = SCREEN_WIDTH \<and>
         TOP_Y (bottom_obstacle_position (pair (canvas g) 360 (gap_centre e) 0)) = gap_centre e \<and>
         200 \<le> gap_centre e \<and> gap_centre e < 600 \<and>
         (\<forall>k<90. obstacles (fst (pipes_ticks (Suc k) g e)) = [pair (canvas g) 360 (gap_centre e) k] \<and>
                 LEFT_X (bottom_obstacle_position (pair (canvas g) 360 (gap_centre e) k)) =
                   360 - 2 * real k \<and>
                 \<not> halfway (pair (canvas g) 360 (gap_centre e) k)) \<and>
         obstacles (fst (pipes_ticks 91 g e)) =
           [pair (canvas g) 360 (gap_centre e) 90,
            pair (canvas g + 2) 440 (gap_centre (rest e)) 0] \<and>
         LEFT_X (bottom_obstacle_position (pair (canvas g) 360 (gap_centre e) 90)) = 180 \<and>
         halfway (pair (canvas g) 360 (gap_centre e) 90) \<and>
         LEFT_X (bottom_obstacle_position (pair (canvas g + 2) 440 (gap_centre (rest e)) 0)) =
           SCREEN_WIDTH + DISTANCE_BETWEEN_OBSTACLES \<and>
         200 \<le> gap_centre (rest e) \<and> gap_centre (rest e) < 600"
proof -
  have a: "obstacles (fst (pipes_ticks 1 g e)) = [pair (canvas g) 360 (gap_centre e) 0]"
    using ticks_first_phase[OF assms, of 0 e] by simp
  have b: "\<forall>k<90. obstacles (fst (pipes_ticks (Suc k) g e)) = [pair (canvas g) 360 (gap_centre e) k] \<and>
                 LEFT_X (bottom_obstacle_position (pair (canvas g) 360 (gap_centre e) k)) =
                   360 - 2 * real k \<and>
                 \<not> halfway (pair (canvas g) 360 (gap_centre e) k)"
    using ticks_first_phase[OF assms]
    by (simp add: halfway_pair_360 pair_explicit del: pipes_ticks.simps)
  have "pipes_ticks (Suc (90 + 0)) g e =
       (g\<lparr>obstacles := [pair (canvas g) 360 (gap_centre e) (90 + 0),
                         pair (Suc (Suc (canvas g))) 440 (gap_centre (rest e)) 0],
          canvas := Suc (Suc (Suc (Suc (canvas g))))\<rparr>, rest (rest e))"
    by (rule ticks_second_phase[OF assms]) simp
  then have c: "obstacles (fst (pipes_ticks 91 g e)) =
           [pair (canvas g) 360 (gap_centre e) 90,
            pair (canvas g + 2) 440 (gap_centre (rest e)) 0]"
    by (simp del: pipes_ticks.simps)
  show ?thesis
    using a b c gap_centre_range[of e] gap_centre_range[of "rest e"]
    by (simp add: pair_explicit del: pipes_ticks.simps)
qed

theorem first_pair_and_midpoint_spawn_witness:
  "obstacles (Game Canvas) = [] \<and>
   obstacles (fst (pipes_ticks 1 (Game Canvas) no_entropy)) = [pair 2 360 200 0] \<and>
   obstacles (fst (pipes_ticks 90 (Game Canvas) no_entropy)) = [pair 2 360 200 89] \<and>
   obstacles (fst (pipes_ticks 91 (Game Canvas) no_entropy)) =
     [pair 2 360 200 90, pair 4 440 200 0]"
proof -
  have "(89::nat) < 90" by simp
  with first_pair_and_midpoint_spawn [OF new_game(1), of no_entropy]
  have "obstacles (fst (pipes_ticks (Suc 89) (Game Canvas) no_entropy)) =
      [pair (canvas (Game Canvas)) 360 (gap_centre no_entropy) 89]"
    by blast
  then have "obstacles (fst (pipes_ticks 90 (Game Canvas) no_entropy)) = [pair 2 360 200 89]"
    by (simp add: new_game gap_centre_no_entropy del: pipes_ticks.simps)
  then show ?thesis
    using first_pair_and_midpoint_spawn [OF new_game(1), of no_entropy]
    by (simp add: new_game gap_centre_no_entropy del: pipes_ticks.simps)
qed


text \<open>
  Claim C8, as stated: the flag \<^verbatim>\<open>off_screen\<close> becomes true at most
  play-width / scroll-speed = 360 / 2 = 180 ticks after the pair was spawned. The first
  pair of a game, 180 ticks after its spawn, has its right edge at 70 and is not flagged.
\<close>

theorem off_screen_bound_counterexample:
  "obstacles (fst (pipes_ticks 181 (Game Canvas) no_entropy)) =
     [pair 2 360 200 180, pair 4 440 200 90] \<and>
   RIGHT_X (bottom_obstacle_position (pair 2 360 200 180)) = 70 \<and>
   \<not> off_screen (pair 2 360 200 180)"
proof -
  have "pipes_ticks (Suc (90 + 90)) (Game Canvas) no_entropy =
       ((Game Canvas)\<lparr>obstacles := [pair (canvas (Game Canvas)) 360 (gap_centre no_entropy) (90 + 90),
                         pair (Suc (Suc (canvas (Game Canvas)))) 440 (gap_centre (rest no_entropy)) 90],
          canvas := Suc (Suc (Suc (Suc (canvas (Game Canvas)))))\<rparr>, rest (rest no_entropy))"
    by (rule ticks_second_phase[OF new_game(1)]) simp
  then have "obstacles (fst (pipes_ticks 181 (Game Canvas) no_entropy)) =
     [pair 2 360 200 180, pair 4 440 200 90]"
    by (simp add: new_game gap_centre_no_entropy del: pipes_ticks.simps)
  then show ?thesis by (simp add: pair_explicit del: pipes_ticks.simps)
qed

text \<open>
  Claim C8, amended. The flag of a pair spawned with its left edge at \<open>x\<close> is true from
  the first tick on which its right edge \<open>x + 70 - 2 n\<close> is at or left of 0: from the
  215th tick for a pair spawned at 360 and from the 255th for a pair spawned at 440. In a
  running game (the obstacle list empty, or left by an earlier \<^verbatim>\<open>_manage_pipes\<close>) the
  call of \<^verbatim>\<open>_manage_pipes\<close> that sets the flag also removes the pair, so the list it
  leaves is never empty and holds no flagged pair; for the first pair this happens on
  tick 216. The list left by \<^verbatim>\<open>_manage_pipes\<close> is always a subsequence of the moved old
  list followed by newly created pairs: removal does not reorder.
\<close>

theorem off_screen_and_removal:
  "(off_screen (pair c x y n) \<longleftrightarrow>
      0 < n \<and> RIGHT_X (bottom_obstacle_position (pair c x y n)) \<le> 0) \<and>
   RIGHT_X (bottom_obstacle_position (pair c x y n)) = x + OBSTACLE_WIDTH - 2 * real n \<and>
   (off_screen (pair c 360 y n) \<longleftrightarrow> 215 \<le> n) \<and>
   (off_screen (pair c 440 y n) \<longleftrightarrow> 255 \<le> n) \<and>
   (obstacles g = [] \<or> stream_inv (obstacles g) \<longrightarrow>
      stream_inv (obstacles (fst (manage_pipes g e))) \<and>
      obstacles (fst (manage_pipes g e)) \<noteq> [] \<and>
      (\<forall>ob\<in>set (obstacles (fst (manage_pipes g e))). \<not> off_screen ob)) \<and>
   (obstacles g = [] \<longrightarrow>
      obstacles (fst (pipes_ticks 215 g e)) =
        [pair (canvas g) 360 (gap_centre e) 214, pair (canvas g + 2) 440 (gap_centre (rest e)) 124] \<and>
      off_screen (move_obstacle (pair (canvas g) 360 (gap_centre e) 214)) \<and>
      obstacles (fst (pipes_ticks 216 g e)) =
        [move_obstacle (pair (canvas g + 2) 440 (gap_centre (rest e)) 124)]) \<and>
   (\<exists>news. subseq (obstacles (fst (manage_pipes g e)))
              (map move_obstacle (obstacles g) @ news) \<and>
           (\<forall>ob\<in>set news. fresh_from (canvas g) ob))"
proof -
  have inv: "obstacles g = [] \<or> stream_inv (obstacles g) \<longrightarrow>
      stream_inv (obstacles (fst (manage_pipes g e))) \<and>
      obstacles (fst (manage_pipes g e)) \<noteq> [] \<and>
      (\<forall>ob\<in>set (obstacles (fst (manage_pipes g e))). \<not> off_screen ob)"
    using stream_inv_manage_pipes[of g e] stream_inv_facts[of "obstacles (fst (manage_pipes g e))"]
    by blast
  have ticks: "obstacles g = [] \<longrightarrow>
      obstacles (fst (pipes_ticks 215 g e)) =
        [pair (canvas g) 360 (gap_centre e) 214, pair (canvas g + 2) 440 (gap_centre (rest e)) 124] \<and>
      off_screen (move_obstacle (pair (canvas g) 360 (gap_centre e) 214)) \<and>
      obstacles (fst (pipes_ticks 216 g e)) =
        [move_obstacle (pair (canvas g + 2) 440 (gap_centre (rest e)) 124)]"
  proof
    assume empty: "obstacles g = []"
    have "pipes_ticks (Suc (90 + 124)) g e =
       (g\<lparr>obstacles := [pair (canvas g) 360 (gap_centre e) (90 + 124),
                         pair (Suc (Suc (canvas g))) 440 (gap_centre (rest e)) 124],
          canvas := Suc (Suc (Suc (Suc (canvas g))))\<rparr>, rest (rest e))"
      by (rule ticks_second_phase[OF empty]) simp
    then have "obstacles (fst (pipes_ticks 215 g e)) =
        [pair (canvas g) 360 (gap_centre e) 214, pair (canvas g + 2) 440 (gap_centre (rest e)) 124]"
      by (simp del: pipes_ticks.simps)
    moreover have "obstacles (fst (pipes_ticks 216 g e)) =
        [move_obstacle (pair (canvas g + 2) 440 (gap_centre (rest e)) 124)]"
      using ticks_first_removal[OF empty, of e] by (simp add: move_pair del: pipes_ticks.simps)
    ultimately show "obstacles (fst (pipes_ticks 215 g e)) =
        [pair (canvas g) 360 (gap_centre e) 214, pair (canvas g + 2) 440 (gap_centre (rest e)) 124] \<and>
      off_screen (move_obstacle (pair (canvas g) 360 (gap_centre e) 214)) \<and>
      obstacles (fst (pipes_ticks 216 g e)) =
        [move_obstacle (pair (canvas g + 2) 440 (gap_centre (rest e)) 124)]"
      by (simp add: move_pair off_screen_pair_360 del: pipes_ticks.simps)
  qed
  have flags: "(off_screen (pair c x y n) \<longleftrightarrow>
      0 < n \<and> RIGHT_X (bottom_obstacle_position (pair c x y n)) \<le> 0) \<and>
   RIGHT_X (bottom_obstacle_position (pair c x y n)) = x + OBSTACLE_WIDTH - 2 * real n"
    by (simp add: pair_explicit)
  show ?thesis
    using flags inv ticks manage_pipes_kept[of g e] off_screen_pair_360[of c y n]
      off_screen_pair_440[of c y n]
    by blast
qed

theorem off_screen_and_removal_witness:
  "obstacles (Game Canvas) = [] \<and>
   obstacles (fst (pipes_ticks 215 (Game Canvas) no_entropy)) =
     [pair 2 360 200 214, pair 4 440 200 124] \<and>
   \<not> off_screen (pair 2 360 200 214) \<and>
   off_screen (pair 2 360 200 215) \<and>
   obstacles (fst (pipes_ticks 216 (Game Canvas) no_entropy)) = [pair 4 440 200 125] \<and>
   stream_inv (obstacles (fst (manage_pipes (Game Canvas) no_entropy)))"
  using off_screen_and_removal [of 2 360 200 214 "Game Canvas" no_entropy]
    off_screen_and_removal [of 2 360 200 215 "Game Canvas" no_entropy]
  by (simp add: new_game gap_centre_no_entropy move_pair del: pipes_ticks.simps)

section \<open>The claims about collisions and the score\<close>

lemma manage_collisions_boundary:
  assumes "obstacles g \<noteq> []"
    and "SCREEN_HEIGHT \<le> BOTTOM_Y (get_coordinates (player g)) \<or>
         TOP_Y (get_coordinates (player g)) \<le> 0"
  shows "manage_collisions ov g = Some True"
  using assms by (cases "obstacles g") (auto simp: manage_collisions_def)

lemma manage_pipes_player: "player (fst (manage_pipes g e)) = player g"
  by (simp add: manage_pipes_def Let_def split: prod.splits)

lemma manage_score_nonempty:
  assumes "obstacles g \<noteq> []"
  shows "\<exists>g'. manage_score g = Inr g' \<and> obstacles g' = obstacles g \<and> player g' = player g"
  using assms by (cases "obstacles g") (auto simp: manage_score_def Let_def)

lemma move_returns:
  assumes "set (movement_stack p) \<subseteq> {''True''}"
  shows "\<exists>p'. move p = Inr p' \<and> set (movement_stack p') \<subseteq> {''True''}"
proof (cases "movement_stack p")
  case Nil
  then show ?thesis by (simp add: move_def fall_def Let_def)
next
  case (Cons a as)
  note stack = this
  show ?thesis
  proof (cases as)
    case Nil
    with stack assms have "movement_stack p = [''True'']" by simp
    then show ?thesis by (simp add: move_def flap_def list_remove_def Let_def)
  next
    case (Cons b bs)
    with stack have "1 < length (movement_stack p)" by simp
    then have "move p = Inr (p\<lparr>movement_stack := butlast (movement_stack p)\<rparr>)"
      by (rule move_long_stack)
    moreover have "set (butlast (movement_stack p)) \<subseteq> {''True''}"
      using assms by (meson in_set_butlastD subset_iff)
    ultimately show ?thesis by simp
  qed
qed

lemma manage_score_returns_iff:
  "(\<exists>g'. manage_score g = Inr g') \<longleftrightarrow> obstacles g \<noteq> []"
  by (cases "obstacles g") (simp_all add: manage_score_def)

lemma run_game_parts:
  assumes "run_game ov app e = Inr (app', e')"
  obtains p g1 g2 where
    "move (player (game_object app)) = Inr p"
    "manage_pipes ((game_object app)\<lparr>player := p\<rparr>) e = (g1, e')"
    "obstacles g1 \<noteq> []" "manage_score g1 = Inr g2"
    "obstacles g2 = obstacles g1" "player g2 = p"
    "app' = check_restart ov (app\<lparr>game_object := g2\<rparr>)"
proof -
  from assms obtain p where mv: "move (player (game_object app)) = Inr p"
    by (auto simp: run_game_def split: sum.splits)
  obtain g1 e1 where mp: "manage_pipes ((game_object app)\<lparr>player := p\<rparr>) e = (g1, e1)"
    by (cases "manage_pipes ((game_object app)\<lparr>player := p\<rparr>) e")
  from assms mv mp obtain g2 where ms: "manage_score g1 = Inr g2"
    by (auto simp: run_game_def split: sum.splits)
  then have ne: "obstacles g1 \<noteq> []" using manage_score_returns_iff by blast
  from manage_score_nonempty[OF ne] ms
  have same: "obstacles g2 = obstacles g1" "player g2 = player g1"
    by auto
  have pl: "player g1 = p"
    using manage_pipes_player[of "(game_object app)\<lparr>player := p\<rparr>" e] mp by simp
  have res: "app' = check_restart ov (app\<lparr>game_object := g2\<rparr>)" "e' = e1"
    using assms mv mp ms by (simp_all add: run_game_def)
  show thesis
    by (rule that[of p g1 g2]) (use mv mp ne ms same pl res in simp_all)
qed

lemma run_game_boundary_any:
  assumes run: "run_game ov app e = Inr (app', e')"
    and mv: "move (player (game_object app)) = Inr p"
    and out: "SCREEN_HEIGHT \<le> BOTTOM_Y (get_coordinates p) \<or> TOP_Y (get_coordinates p) \<le> 0"
  shows "\<exists>g1 g'. manage_pipes ((game_object app)\<lparr>player := p\<rparr>) e = (g1, e') \<and>
              manage_score g1 = Inr g' \<and> player g' = p \<and> obstacles g' \<noteq> [] \<and>
              manage_collisions ov g' = Some True \<and>
              app' = restart (app\<lparr>game_object := g'\<rparr>)"
proof -
  from run obtain q g1 g2 where
    parts: "move (player (game_object app)) = Inr q"
       "manage_pipes ((game_object app)\<lparr>player := q\<rparr>) e = (g1, e')"
       "obstacles g1 \<noteq> []" "manage_score g1 = Inr g2"
       "obstacles g2 = obstacles g1" "player g2 = q"
       "app' = check_restart ov (app\<lparr>game_object := g2\<rparr>)"
    by (rule run_game_parts)
  from parts(1) mv have "q = p" by simp
  with parts have g: "obstacles g1 \<noteq> []" "obstacles g2 = obstacles g1" "player g2 = p"
       "app' = check_restart ov (app\<lparr>game_object := g2\<rparr>)"
       "manage_pipes ((game_object app)\<lparr>player := p\<rparr>) e = (g1, e')"
       "manage_score g1 = Inr g2"
    by simp_all
  have "manage_collisions ov g2 = Some True"
    using g out by (intro manage_collisions_boundary) simp_all
  then show ?thesis
    using g by (intro exI[of _ g1] exI[of _ g2]) (simp add: check_restart_def)
qed

lemma session_inv_start: "session_inv Application"
  by (simp add: session_inv_def Application_def new_game player_defs)

lemma session_inv_event:
  "session_inv app \<Longrightarrow>
     session_inv (app\<lparr>game_object := game_event_entered (game_object app) ev\<rparr>)"
  by (auto simp: session_inv_def game_event_entered_def event_entered_def)

lemma session_inv_restart: "session_inv (restart app)"
  by (simp add: session_inv_def restart_def new_game player_defs)

lemma run_game_returns:
  assumes "session_inv app"
  shows "\<exists>p g1 e1 g2. move (player (game_object app)) = Inr p \<and>
           manage_pipes ((game_object app)\<lparr>player := p\<rparr>) e = (g1, e1) \<and>
           obstacles g1 \<noteq> [] \<and> manage_score g1 = Inr g2 \<and>
           run_game ov app e = Inr (check_restart ov (app\<lparr>game_object := g2\<rparr>), e1) \<and>
           session_inv (check_restart ov (app\<lparr>game_object := g2\<rparr>))"
proof -
  from assms have st: "set (movement_stack (player (game_object app))) \<subseteq> {''True''}"
    and inv: "obstacles (game_object app) = [] \<or> stream_inv (obstacles (game_object app))"
    by (simp_all add: session_inv_def)
  from move_returns[OF st] obtain p where
    mv: "move (player (game_object app)) = Inr p" "set (movement_stack p) \<subseteq> {''True''}"
    by blast
  let ?g0 = "(game_object app)\<lparr>player := p\<rparr>"
  obtain g1 e1 where mp: "manage_pipes ?g0 e = (g1, e1)" by (cases "manage_pipes ?g0 e")
  have "stream_inv (obstacles (fst (manage_pipes ?g0 e)))"
    using inv by (intro stream_inv_manage_pipes) simp
  then have i1: "stream_inv (obstacles g1)" using mp by simp
  then have ne: "obstacles g1 \<noteq> []" using stream_inv_facts(1) by blast
  have pl: "player g1 = p" using manage_pipes_player[of ?g0 e] mp by simp
  from manage_score_nonempty[OF ne] obtain g2 where
    g2: "manage_score g1 = Inr g2" "obstacles g2 = obstacles g1" "player g2 = player g1"
    by blast
  have run: "run_game ov app e = Inr (check_restart ov (app\<lparr>game_object := g2\<rparr>), e1)"
    using mv mp g2 by (simp add: run_game_def)
  have "session_inv (app\<lparr>game_object := g2\<rparr>)"
    using i1 g2 pl mv(2) by (simp add: session_inv_def)
  then have "session_inv (check_restart ov (app\<lparr>game_object := g2\<rparr>))"
    using session_inv_restart by (simp add: check_restart_def)
  then show ?thesis using mv(1) mp ne g2(1) run by blast
qed

subsection \<open>A game played without input\<close>


lemma move_idle_player: "move (idle_player k) = Inr (idle_player (Suc k))"
  by (simp add: idle_player_def player_defs field_simps)

lemma idle_height:
  assumes "k \<le> 34"
  shows "real k * (real k + 1) / 4 < 300"
proof -
  have "real k * (real k + 1) \<le> 34 * 35"
    using assms by (intro mult_mono) simp_all
  then show ?thesis by simp
qed

lemma manage_collisions_idle:
  assumes "k \<le> 34"
  shows "manage_collisions rectangles_test (idle_game k) = None"
proof -
  have "0 \<le> real k * (real k + 1)" by simp
  then have "\<not> 300 + real k * (real k + 1) / 4 \<le> 0"
    by linarith
  then show ?thesis
    using assms idle_height[OF assms]
    by (auto simp: manage_collisions_def idle_game_def idle_player_def pair_explicit
        rectangles_test_def boxes_overlap_def get_coordinates_def canvas_coords_def)
qed

lemma manage_score_idle:
  assumes "k \<le> 35"
  shows "manage_score (idle_game k) = Inr (idle_game k)"
  using assms
  by (simp add: manage_score_def idle_game_def idle_player_def pair_explicit
      get_coordinates_def canvas_coords_def)

lemma manage_pipes_idle:
  assumes "1 \<le> k" "k \<le> 35"
  shows "manage_pipes ((idle_game k)\<lparr>player := idle_player (Suc k)\<rparr>) no_entropy =
           (idle_game (Suc k), no_entropy)"
proof -
  have k: "Suc (k - Suc 0) = k" using assms by simp
  have "manage_pipes ((idle_game k)\<lparr>player := idle_player (Suc k)\<rparr>) no_entropy =
     (((idle_game k)\<lparr>player := idle_player (Suc k)\<rparr>)
        \<lparr>obstacles := [move_obstacle (pair 2 360 200 (k - 1))],
         canvas := canvas ((idle_game k)\<lparr>player := idle_player (Suc k)\<rparr>)\<rparr>, no_entropy)"
    using assms
    by (intro manage_pipes_single_plain)
       (simp_all add: idle_game_def move_pair k halfway_pair_360 off_screen_pair_360)
  then show ?thesis by (simp add: idle_game_def move_pair k)
qed


lemma run_game_idle:
  assumes "1 \<le> k" "k < 34"
  shows "run_game rectangles_test (idle_app k) no_entropy = Inr (idle_app (Suc k), no_entropy)"
  using assms move_idle_player[of k] manage_pipes_idle[of k] manage_score_idle[of "Suc k"]
    manage_collisions_idle[of "Suc k"]
  by (simp add: run_game_def check_restart_def idle_app_def idle_game_def)


lemma manage_collisions_idle_35:
  "manage_collisions rectangles_test (idle_game 35) = Some True"
  by (simp add: manage_collisions_def idle_game_def idle_player_def pair_explicit
      rectangles_test_def boxes_overlap_def get_coordinates_def canvas_coords_def)

lemma run_game_idle_last:
  "run_game rectangles_test (idle_app 34) no_entropy =
     Inr (restart ((idle_app 34)\<lparr>game_object := idle_game 35\<rparr>), no_entropy)"
  using move_idle_player[of 34] manage_pipes_idle[of 34] manage_score_idle[of 35]
    manage_collisions_idle_35
  by (simp add: run_game_def check_restart_def idle_app_def idle_game_def)

lemma session_inv_idle: "session_inv (idle_app 34)"
  using stream_inv_single_360[of 33 2 200]
  by (simp add: session_inv_def idle_app_def idle_game_def idle_player_def player_defs)

subsection \<open>The claims\<close>

text \<open>
  Claim C1. In every cycle of \<^verbatim>\<open>run_game\<close>, whatever the obstacle list at its start
  (empty or not): when the player's bottom edge after its move is at or below the lower
  border (640) or its top edge at or above the upper border (0) and the cycle returns, the
  collision evaluation \<^verbatim>\<open>manage_collisions\<close> of that cycle reports \<^verbatim>\<open>True\<close> and the
  session has ended: the menu is packed, the canvas is not, and the game object is a new
  game. The evaluation comes after \<^verbatim>\<open>_manage_pipes\<close> in the cycle, which gives an empty
  list its first pair. And every cycle of a session returns: the condition \<open>session_inv\<close>
  holds of a new application, is kept by input events and by every cycle, and under it
  \<^verbatim>\<open>run_game\<close> raises nothing. Last, outside any cycle: on a non-empty list a player at
  or beyond a border makes \<^verbatim>\<open>manage_collisions\<close> report \<^verbatim>\<open>True\<close> and
  \<^verbatim>\<open>check_restart\<close> end the session.
\<close>

theorem boundary_collision_ends_session:
  "(move (player (game_object app)) = Inr p \<and>
      (SCREEN_HEIGHT \<le> BOTTOM_Y (get_coordinates p) \<or> TOP_Y (get_coordinates p) \<le> 0) \<and>
      run_game find_overlapping app e = Inr (app', e') \<longrightarrow>
      (\<exists>g1 g'. manage_pipes ((game_object app)\<lparr>player := p\<rparr>) e = (g1, e') \<and>
            manage_score g1 = Inr g' \<and> player g' = p \<and> obstacles g' \<noteq> [] \<and>
            manage_collisions find_overlapping g' = Some True \<and>
            app' = restart (app\<lparr>game_object := g'\<rparr>)) \<and>
      menu_frame_packed app' \<and> \<not> game_canvas_packed app' \<and> game_object app' = Game Canvas) \<and>
   (session_inv app \<longrightarrow>
      (\<exists>app' e'. run_game find_overlapping app e = Inr (app', e') \<and> session_inv app')) \<and>
   session_inv Application \<and>
   (session_inv app \<longrightarrow>
      session_inv (app\<lparr>game_object := game_event_entered (game_object app) ev\<rparr>)) \<and>
   (obstacles g \<noteq> [] \<and>
      (SCREEN_HEIGHT \<le> BOTTOM_Y (get_coordinates (player g)) \<or>
       TOP_Y (get_coordinates (player g)) \<le> 0) \<longrightarrow>
      manage_collisions find_overlapping g = Some True \<and>
      check_restart find_overlapping (app\<lparr>game_object := g\<rparr>) =
        restart (app\<lparr>game_object := g\<rparr>))"
proof -
  have a: "move (player (game_object app)) = Inr p \<and>
      (SCREEN_HEIGHT \<le> BOTTOM_Y (get_coordinates p) \<or> TOP_Y (get_coordinates p) \<le> 0) \<and>
      run_game find_overlapping app e = Inr (app', e') \<longrightarrow>
      (\<exists>g1 g'. manage_pipes ((game_object app)\<lparr>player := p\<rparr>) e = (g1, e') \<and>
            manage_score g1 = Inr g' \<and> player g' = p \<and> obstacles g' \<noteq> [] \<and>
            manage_collisions find_overlapping g' = Some True \<and>
            app' = restart (app\<lparr>game_object := g'\<rparr>)) \<and>
      menu_frame_packed app' \<and> \<not> game_canvas_packed app' \<and> game_object app' = Game Canvas"
  proof (intro impI, elim conjE)
    assume mv: "move (player (game_object app)) = Inr p"
      and out: "SCREEN_HEIGHT \<le> BOTTOM_Y (get_coordinates p) \<or> TOP_Y (get_coordinates p) \<le> 0"
      and run: "run_game find_overlapping app e = Inr (app', e')"
    from run_game_boundary_any[OF run mv out] obtain g1 g' where
      g': "manage_pipes ((game_object app)\<lparr>player := p\<rparr>) e = (g1, e')"
          "manage_score g1 = Inr g'" "player g' = p" "obstacles g' \<noteq> []"
          "manage_collisions find_overlapping g' = Some True"
          "app' = restart (app\<lparr>game_object := g'\<rparr>)" by blast
    then have "menu_frame_packed app' \<and> \<not> game_canvas_packed app' \<and> game_object app' = Game Canvas"
      by (simp add: restart_def)
    with g' show "(\<exists>g1 g'. manage_pipes ((game_object app)\<lparr>player := p\<rparr>) e = (g1, e') \<and>
            manage_score g1 = Inr g' \<and> player g' = p \<and> obstacles g' \<noteq> [] \<and>
            manage_collisions find_overlapping g' = Some True \<and>
            app' = restart (app\<lparr>game_object := g'\<rparr>)) \<and>
      menu_frame_packed app' \<and> \<not> game_canvas_packed app' \<and> game_object app' = Game Canvas"
      by blast
  qed
  have b: "session_inv app \<longrightarrow>
      (\<exists>app' e'. run_game find_overlapping app e = Inr (app', e') \<and> session_inv app')"
    using run_game_returns[of app e find_overlapping] by blast
  have c: "session_inv app \<longrightarrow>
      session_inv (app\<lparr>game_object := game_event_entered (game_object app) ev\<rparr>)"
    using session_inv_event by blast
  have d: "obstacles g \<noteq> [] \<and>
      (SCREEN_HEIGHT \<le> BOTTOM_Y (get_coordinates (player g)) \<or>
       TOP_Y (get_coordinates (player g)) \<le> 0) \<longrightarrow>
      manage_collisions find_overlapping g = Some True \<and>
      check_restart find_overlapping (app\<lparr>game_object := g\<rparr>) =
        restart (app\<lparr>game_object := g\<rparr>)"
    using manage_collisions_boundary[of g find_overlapping] by (simp add: check_restart_def)
  show ?thesis using a b c d session_inv_start by blast
qed

theorem boundary_collision_ends_session_witness:
  "session_inv (idle_app 34) \<and>
   move (player (game_object (idle_app 34))) = Inr (idle_player 35) \<and>
   BOTTOM_Y (get_coordinates (idle_player 35)) = 655 \<and>
   SCREEN_HEIGHT \<le> BOTTOM_Y (get_coordinates (idle_player 35)) \<and>
   run_game rectangles_test (idle_app 34) no_entropy =
     Inr (restart ((idle_app 34)\<lparr>game_object := idle_game 35\<rparr>), no_entropy) \<and>
   obstacles (idle_game 35) \<noteq> [] \<and>
   manage_collisions rectangles_test (idle_game 35) = Some True \<and>
   menu_frame_packed (restart ((idle_app 34)\<lparr>game_object := idle_game 35\<rparr>)) \<and>
   \<not> game_canvas_packed (restart ((idle_app 34)\<lparr>game_object := idle_game 35\<rparr>)) \<and>
   game_object (restart ((idle_app 34)\<lparr>game_object := idle_game 35\<rparr>)) = Game Canvas"
proof -
  let ?app' = "restart ((idle_app 34)\<lparr>game_object := idle_game 35\<rparr>)"
  have mv: "move (player (game_object (idle_app 34))) = Inr (idle_player 35)"
    using move_idle_player[of 34] by (simp add: idle_app_def idle_game_def)
  have b: "BOTTOM_Y (get_coordinates (idle_player 35)) = 655"
    by (simp add: idle_player_def get_coordinates_def canvas_coords_def)
  then have out: "SCREEN_HEIGHT \<le> BOTTOM_Y (get_coordinates (idle_player 35)) \<or>
      TOP_Y (get_coordinates (idle_player 35)) \<le> 0"
    by simp
  have ne: "obstacles (idle_game 35) \<noteq> []" by (simp add: idle_game_def)
  have "menu_frame_packed ?app' \<and> \<not> game_canvas_packed ?app' \<and> game_object ?app' = Game Canvas"
    using boundary_collision_ends_session
            [where app = "idle_app 34" and p = "idle_player 35" and e = no_entropy
               and find_overlapping = rectangles_test and app' = ?app' and e' = no_entropy
               and g = "idle_game 35" and ev = space_key]
          mv out run_game_idle_last
    by blast
  then show ?thesis
    using session_inv_idle mv b ne run_game_idle_last manage_collisions_idle_35 by simp
qed



lemma move_keeps_right_edge:
  "move p = Inr p' \<Longrightarrow> RIGHT_X (get_coordinates p') = RIGHT_X (get_coordinates p)"
  by (auto simp: move_def fall_def flap_def list_remove_def canvas_move_def get_coordinates_def
      canvas_coords_def Let_def split: if_splits sum.splits)

lemma manage_score_cases:
  "obstacles g = ob # obs \<Longrightarrow>
     manage_score g =
       Inr (if RIGHT_X (get_coordinates (player g)) = RIGHT_X (bottom_obstacle_position ob)
            then g\<lparr>scoreboard := increase_score (scoreboard g),
                   game_score := score (scoreboard g) + 1\<rparr>
            else g)"
  by (simp add: manage_score_def increase_score_def Let_def)

lemma manage_score_monotone:
  assumes "manage_score g = Inr g'"
  shows "score (scoreboard g) \<le> score (scoreboard g') \<and>
         score (scoreboard g') \<le> score (scoreboard g) + 1 \<and>
         (game_score g = score (scoreboard g) \<longrightarrow>
            game_score g' = score (scoreboard g') \<and> game_score g \<le> game_score g')"
  using assms
  by (cases "obstacles g")
     (auto simp: manage_score_def increase_score_def Let_def split: if_splits)

lemma manage_pipes_score:
  "scoreboard (fst (manage_pipes g e)) = scoreboard g \<and>
   game_score (fst (manage_pipes g e)) = game_score g"
  by (simp add: manage_pipes_def Let_def split: prod.splits)

text \<open>
  Claim C4. With a non-empty obstacle list \<^verbatim>\<open>_manage_score\<close> adds exactly 1 to the score
  (scoreboard, its label and the game's copy) when the player's right edge equals the right
  edge of the first pair, and changes nothing otherwise; the score never decreases, starts
  at 0, and nothing else in a cycle changes it. The player's right edge is never moved
  (it is 80), and the right edge of a pair decreases by 2 with every tick, so it takes
  every value on at most one tick of the pair's life: a pair spawned at 360 scores on its
  175th tick only, a pair spawned at 440 on its 215th only. The code has no further guard
  against counting a pair twice, and needs none.
\<close>

theorem score_once_per_pair:
  "(obstacles g = ob # obs \<longrightarrow>
      manage_score g =
        Inr (if RIGHT_X (get_coordinates (player g)) = RIGHT_X (bottom_obstacle_position ob)
             then g\<lparr>scoreboard := increase_score (scoreboard g),
                    game_score := score (scoreboard g) + 1\<rparr>
             else g)) \<and>
   score (increase_score sb) = score sb + 1 \<and>
   label_text (increase_score sb) = score sb + 1 \<and>
   (manage_score g = Inr g' \<longrightarrow>
      score (scoreboard g) \<le> score (scoreboard g') \<and>
      score (scoreboard g') \<le> score (scoreboard g) + 1 \<and>
      (game_score g = score (scoreboard g) \<longrightarrow>
         game_score g' = score (scoreboard g') \<and> game_score g \<le> game_score g')) \<and>
   scoreboard (fst (manage_pipes g e)) = scoreboard g \<and>
   game_score (fst (manage_pipes g e)) = game_score g \<and>
   score (scoreboard (Game Canvas)) = 0 \<and> game_score (Game Canvas) = 0 \<and>
   (move p = Inr p' \<longrightarrow> RIGHT_X (get_coordinates p') = RIGHT_X (get_coordinates p)) \<and>
   RIGHT_X (get_coordinates start_player) = 80 \<and>
   RIGHT_X (bottom_obstacle_position (move_obstacle (pair c x y n))) =
     RIGHT_X (bottom_obstacle_position (pair c x y n)) - 2 \<and>
   (RIGHT_X (bottom_obstacle_position (pair c x y n)) =
      RIGHT_X (bottom_obstacle_position (pair c x y m)) \<longrightarrow> n = m) \<and>
   (RIGHT_X (bottom_obstacle_position (pair c 360 y n)) = 80 \<longleftrightarrow> n = 175) \<and>
   (RIGHT_X (bottom_obstacle_position (pair c 440 y n)) = 80 \<longleftrightarrow> n = 215)"
proof -
  have a: "score (increase_score sb) = score sb + 1 \<and>
           label_text (increase_score sb) = score sb + 1"
    by (simp add: increase_score_def Let_def)
  have b: "score (scoreboard (Game Canvas)) = 0 \<and> game_score (Game Canvas) = 0 \<and>
           RIGHT_X (get_coordinates start_player) = 80"
    by (simp add: player_defs Scoreboard_def)
  have c: "RIGHT_X (bottom_obstacle_position (move_obstacle (pair c x y n))) =
     RIGHT_X (bottom_obstacle_position (pair c x y n)) - 2"
    by (simp only: move_pair) (simp add: pair_explicit)
  have d: "RIGHT_X (bottom_obstacle_position (pair c x y n)) =
      RIGHT_X (bottom_obstacle_position (pair c x y m)) \<longrightarrow> n = m"
    by (simp add: pair_explicit)
  have f: "(RIGHT_X (bottom_obstacle_position (pair c 360 y n)) = 80 \<longleftrightarrow> n = 175) \<and>
           (RIGHT_X (bottom_obstacle_position (pair c 440 y n)) = 80 \<longleftrightarrow> n = 215)"
    by (auto simp: pair_explicit)
  show ?thesis
    using a b c d f manage_score_cases[of g ob obs] manage_score_monotone[of g g']
      manage_pipes_score[of g e] move_keeps_right_edge[of p p']
    by blast
qed

theorem score_once_per_pair_witness:
  "obstacles ((Game Canvas)\<lparr>obstacles := [pair 2 360 200 175]\<rparr>) = [pair 2 360 200 175] \<and>
   manage_score ((Game Canvas)\<lparr>obstacles := [pair 2 360 200 175]\<rparr>) =
     Inr ((Game Canvas)\<lparr>obstacles := [pair 2 360 200 175],
                        scoreboard := \<lparr>score = 1, label_text = 1\<rparr>, game_score := 1\<rparr>) \<and>
   obstacles ((Game Canvas)\<lparr>obstacles := [pair 2 360 200 176]\<rparr>) = [pair 2 360 200 176] \<and>
   manage_score ((Game Canvas)\<lparr>obstacles := [pair 2 360 200 176]\<rparr>) =
     Inr ((Game Canvas)\<lparr>obstacles := [pair 2 360 200 176]\<rparr>) \<and>
   move start_player = Inr (fall start_player) \<and>
   RIGHT_X (get_coordinates (fall start_player)) = 80 \<and>
   RIGHT_X (bottom_obstacle_position (pair 2 360 200 175)) = 80 \<and>
   RIGHT_X (bottom_obstacle_position (pair 2 360 200 176)) = 78"
proof -
  let ?g = "(Game Canvas)\<lparr>obstacles := [pair 2 360 200 175]\<rparr>"
  let ?g' = "(Game Canvas)\<lparr>obstacles := [pair 2 360 200 175],
                        scoreboard := \<lparr>score = 1, label_text = 1\<rparr>, game_score := 1\<rparr>"
  let ?h = "(Game Canvas)\<lparr>obstacles := [pair 2 360 200 176]\<rparr>"
  have mv: "move start_player = Inr (fall start_player)"
    by (simp add: player_defs)
  have pl: "player (Game Canvas) = start_player" by (simp add: start_player_def)
  have sb: "scoreboard (Game Canvas) = \<lparr>score = 0, label_text = 0\<rparr>"
    by (simp add: Game_def Player_def create_rectangle_def Scoreboard_def)
  have one: "manage_score ?g = Inr ?g'"
    using score_once_per_pair
            [where g = ?g and ob = "pair 2 360 200 175" and obs = "[]"
               and sb = "\<lparr>score = 0, label_text = 0\<rparr>" and g' = ?g'
               and p = start_player and p' = "fall start_player"
               and c = 2 and x = 360 and y = 200 and n = 175 and m = 175]
          pl sb
    by simp
  have two: "manage_score ?h = Inr ?h \<and> RIGHT_X (get_coordinates (fall start_player)) = 80 \<and>
      RIGHT_X (bottom_obstacle_position (pair 2 360 200 176)) = 78"
    using score_once_per_pair
            [where g = ?h and ob = "pair 2 360 200 176" and obs = "[]" and g' = ?h
               and p = start_player and p' = "fall start_player"
               and c = 2 and x = 360 and y = 200 and n = 175 and m = 175]
          pl mv
    by (simp only: move_pair) simp
  show ?thesis using one two mv by (simp add: pair_explicit)
qed


end
